theory Spec2Isabelle
  imports Main "HOL-Library.Char_ord" "HOL-Library.List_Lexorder" "HOL-Library.Multiset"
begin

section \<open>The artifact proxy: request router of cmd/artifact-proxy-operator/main.go\<close>

text \<open>
  A shallow embedding of \<^verbatim>\<open>handler\<close>, \<^verbatim>\<open>handleBinaryResponse\<close>, \<^verbatim>\<open>encodeItmsUrl\<close>,
  \<^verbatim>\<open>parseToken\<close>, \<^verbatim>\<open>validateURLPath\<close>, \<^verbatim>\<open>isArtifactRequest\<close> and \<^verbatim>\<open>isPlistRequest\<close>.
  Go strings are byte strings, here \<^typ>\<open>string\<close>. The clients of packages openshift,
  jenkins and plist are parameters of the model (record \<open>clients\<close> below). The
  library functions the code calls (strings, regexp, net/url, net/http) are modelled
  as far as the code uses them.
\<close>

subsection \<open>Package strings\<close>

text \<open>\<^verbatim>\<open>strings.HasPrefix(s, prefix)\<close>.\<close>

fun HasPrefix :: "string \<Rightarrow> string \<Rightarrow> bool" where
  "HasPrefix s [] = True"
| "HasPrefix [] (p # ps) = False"
| "HasPrefix (c # cs) (p # ps) = (c = p \<and> HasPrefix cs ps)"

text \<open>\<^verbatim>\<open>strings.Contains(s, substr)\<close>: \<open>substr\<close> starts at some position of \<open>s\<close>.\<close>

fun Contains :: "string \<Rightarrow> string \<Rightarrow> bool" where
  "Contains [] substr = HasPrefix [] substr"
| "Contains (c # cs) substr = (HasPrefix (c # cs) substr \<or> Contains cs substr)"

text \<open>
  \<^verbatim>\<open>strings.Split(s, sep)\<close> for a separator of one byte: the pieces between the
  separators, one more than there are separators; the empty string gives one empty piece.
\<close>

fun Split :: "string \<Rightarrow> char \<Rightarrow> string list" where
  "Split [] sep = [[]]"
| "Split (c # cs) sep =
     (if c = sep then [] # Split cs sep
      else (case Split cs sep of
              [] \<Rightarrow> [[c]]
            | piece # pieces \<Rightarrow> (c # piece) # pieces))"

subsection \<open>Package regexp: the pattern of the path validator\<close>

text \<open>
  \<^verbatim>\<open>regexp.MatchString("/.*/download", s)\<close>. The pattern has no anchors, so a match may
  start at any position of \<open>s\<close> and need not reach its end. \<^verbatim>\<open>.\<close> is any character but
  a newline. The pattern compiles, so the error result is always nil.
\<close>

definition newline :: char where
  "newline = CHR 0x0A"

text \<open>\<^verbatim>\<open>.*\<close> followed by the literal \<open>lit\<close>, matched at the start of the string.\<close>

fun match_dotstar_lit :: "string \<Rightarrow> string \<Rightarrow> bool" where
  "match_dotstar_lit lit [] = HasPrefix [] lit"
| "match_dotstar_lit lit (c # cs) =
     (HasPrefix (c # cs) lit \<or> (c \<noteq> newline \<and> match_dotstar_lit lit cs))"

text \<open>The whole pattern, matched at the start of the string.\<close>

fun match_here :: "string \<Rightarrow> bool" where
  "match_here [] = False"
| "match_here (c # cs) = (c = CHR ''/'' \<and> match_dotstar_lit ''/download'' cs)"

text \<open>The whole pattern, matched at some position of the string.\<close>

fun MatchString :: "string \<Rightarrow> bool" where
  "MatchString [] = match_here []"
| "MatchString (c # cs) = (match_here (c # cs) \<or> MatchString cs)"

subsection \<open>Package net/url: query values\<close>

text \<open>
  \<^verbatim>\<open>url.Values\<close> is \<^verbatim>\<open>map[string][]string\<close>: here an association list with one entry
  for each key. \<^verbatim>\<open>v[key]\<close> is \<open>map_of v key\<close>, and \<open>None\<close> is Go's \<^verbatim>\<open>ok == false\<close>.
\<close>

type_synonym Values = "(string \<times> string list) list"

text \<open>\<^verbatim>\<open>v.Add(key, value)\<close>: \<^verbatim>\<open>v[key] = append(v[key], value)\<close>.\<close>

definition Add :: "string \<Rightarrow> string \<Rightarrow> Values \<Rightarrow> Values" where
  "Add key val v =
     (case map_of v key of
        None \<Rightarrow> v @ [(key, [val])]
      | Some vs \<Rightarrow> map (\<lambda>(k, ws). if k = key then (k, ws @ [val]) else (k, ws)) v)"

text \<open>\<^verbatim>\<open>v.Get(key)\<close>: the first value of the key, the empty string when there is none.\<close>

definition Get :: "Values \<Rightarrow> string \<Rightarrow> string" where
  "Get v key =
     (case map_of v key of
        None \<Rightarrow> []
      | Some [] \<Rightarrow> []
      | Some (w # ws) \<Rightarrow> w)"

text \<open>
  \<^verbatim>\<open>url.URL\<close>, as far as the code reads and writes it. \<open>Params\<close> is the query as
  \<^verbatim>\<open>url.ParseQuery\<close> reads it from \<^verbatim>\<open>RawQuery\<close>: the decoded key/value pairs, in the
  order they appear there (the pairs it can decode; it drops the others). Only \<open>Query\<close>
  reads it.
\<close>

record URL =
  Scheme :: string
  Host :: string
  Path :: string
  RawQuery :: string
  Params :: "(string \<times> string) list"

text \<open>
  \<^verbatim>\<open>u.Query()\<close>: for each pair in turn, \<^verbatim>\<open>m[key] = append(m[key], value)\<close>.
\<close>

definition Query :: "URL \<Rightarrow> Values" where
  "Query u = foldl (\<lambda>m (k, v). Add k v m) [] (Params u)"

subsection \<open>The validators of main.go\<close>

text \<open>\<^verbatim>\<open>validateURLPath\<close>: the pair (matched, err) of Go, the error always nil.\<close>

datatype 'a go_result = Ok 'a | Err string

definition validateURLPath :: "URL \<Rightarrow> bool go_result" where
  "validateURLPath u = Ok (MatchString (Path u))"

text \<open>\<^verbatim>\<open>parseToken\<close>.\<close>

definition parseToken :: "URL \<Rightarrow> string go_result" where
  "parseToken u =
     (case map_of (Query u) ''token'' of
        None \<Rightarrow> Err ''invalid request, missing token''
      | Some token \<Rightarrow>
          (case token of
             [t] \<Rightarrow> Ok t
           | _ \<Rightarrow> Err ''invalid request, missing token''))"

text \<open>\<^verbatim>\<open>isArtifactRequest\<close> and \<^verbatim>\<open>isPlistRequest\<close>.\<close>

definition isArtifactRequest :: "URL \<Rightarrow> bool" where
  "isArtifactRequest u = (Get (Query u) ''artifact'' = ''true'')"

definition isPlistRequest :: "URL \<Rightarrow> bool" where
  "isPlistRequest u = (Get (Query u) ''plist'' = ''true'')"

subsection \<open>Package net/url: escaping and printing a URL\<close>

datatype encoding = encodePath | encodeHost | encodeQueryComponent

text \<open>The test \<^verbatim>\<open>lo <= c && c <= hi\<close> on bytes, and the letters and digits.\<close>

definition between :: "char \<Rightarrow> char \<Rightarrow> char \<Rightarrow> bool" where
  "between lo hi c = (lo \<le> c \<and> c \<le> hi)"

definition isAlnum :: "char \<Rightarrow> bool" where
  "isAlnum c =
     (between CHR ''a'' CHR ''z'' c \<or> between CHR ''A'' CHR ''Z'' c \<or>
      between CHR ''0'' CHR ''9'' c)"

text \<open>\<^verbatim>\<open>shouldEscape(c, mode)\<close> of net/url, for the three modes the code reaches.\<close>

definition shouldEscape :: "char \<Rightarrow> encoding \<Rightarrow> bool" where
  "shouldEscape c mode =
     (if isAlnum c then False
      else if mode = encodeHost \<and>
              c \<in> set (''!$&()*+,;=:[]<>'' @ [CHR 0x27, CHR 0x22]) then False
      else if c \<in> set ''-_.~'' then False
      else if c \<in> set ''$&+,/:;=?@'' then
        (case mode of
           encodePath \<Rightarrow> c = CHR ''?''
         | encodeQueryComponent \<Rightarrow> True
         | encodeHost \<Rightarrow> True)
      else True)"

definition upperhex :: string where
  "upperhex = ''0123456789ABCDEF''"

text \<open>
  \<^verbatim>\<open>escape(s, mode)\<close>: a byte to escape becomes \<^verbatim>\<open>%XX\<close>, a space of a query
  component becomes \<^verbatim>\<open>+\<close>.
\<close>

fun escape :: "string \<Rightarrow> encoding \<Rightarrow> string" where
  "escape [] mode = []"
| "escape (c # cs) mode =
     (if shouldEscape c mode then
        (if c = CHR '' '' \<and> mode = encodeQueryComponent then CHR ''+'' # escape cs mode
         else CHR ''%'' # upperhex ! (of_char c div 16) # upperhex ! (of_char c mod 16)
                # escape cs mode)
      else c # escape cs mode)"

definition QueryEscape :: "string \<Rightarrow> string" where
  "QueryEscape s = escape s encodeQueryComponent"

text \<open>
  \<^verbatim>\<open>v.Encode()\<close>: the keys sorted, and for each key its values in order, as
  \<^verbatim>\<open>key=value\<close> joined by \<^verbatim>\<open>&\<close>.
\<close>

definition Encode_value :: "string \<Rightarrow> string \<Rightarrow> string \<Rightarrow> string" where
  "Encode_value keyEscaped buf val =
     (if buf \<noteq> [] then buf @ ''&'' else buf) @ keyEscaped @ ''='' @ QueryEscape val"

definition Encode_key :: "Values \<Rightarrow> string \<Rightarrow> string \<Rightarrow> string" where
  "Encode_key v buf k =
     foldl (Encode_value (QueryEscape k)) buf (case map_of v k of None \<Rightarrow> [] | Some vs \<Rightarrow> vs)"

definition Encode :: "Values \<Rightarrow> string" where
  "Encode v = (if v = [] then [] else foldl (Encode_key v) [] (sort (map fst v)))"

text \<open>
  \<^verbatim>\<open>u.EscapedPath()\<close> and \<^verbatim>\<open>u.String()\<close> for a URL whose \<^verbatim>\<open>RawPath\<close>, \<^verbatim>\<open>Opaque\<close>,
  \<^verbatim>\<open>User\<close> and \<^verbatim>\<open>Fragment\<close> are empty and whose \<^verbatim>\<open>ForceQuery\<close> and \<^verbatim>\<open>OmitHost\<close>
  are false, as they are in the one URL the code prints.
\<close>

definition EscapedPath :: "URL \<Rightarrow> string" where
  "EscapedPath u = (if Path u = ''*'' then ''*'' else escape (Path u) encodePath)"

definition String :: "URL \<Rightarrow> string" where
  "String u =
     (let buf0 = (if Scheme u \<noteq> [] then Scheme u @ '':'' else []);
          buf1 = (if Scheme u \<noteq> [] \<or> Host u \<noteq> [] then
                    (if Host u \<noteq> [] \<or> Path u \<noteq> [] then buf0 @ ''//'' else buf0) @
                    (if Host u \<noteq> [] then escape (Host u) encodeHost else [])
                  else buf0);
          path = EscapedPath u;
          buf2 = (if path \<noteq> [] \<and> \<not> HasPrefix path ''/'' \<and> Host u \<noteq> []
                  then buf1 @ ''/'' else buf1);
          buf3 = (if buf2 = [] \<and> CHR '':'' \<in> set (takeWhile (\<lambda>c. c \<noteq> CHR ''/'') path)
                  then buf2 @ ''./'' else buf2);
          buf4 = buf3 @ path
      in if RawQuery u \<noteq> [] then buf4 @ ''?'' @ RawQuery u else buf4)"

text \<open>
  What a call of the code does besides returning: return a value, panic, or leave the
  part of the library that is modelled here.
\<close>

datatype 'a outcome = Returns 'a | Panics | Unmodelled

text \<open>
  \<^verbatim>\<open>url.Parse("https://" + hostname)\<close> for a host name of letters, digits, \<^verbatim>\<open>-\<close> and
  \<^verbatim>\<open>.\<close>: scheme, host, and nothing else. Other values of the environment variable
  (a port, a path, user information, bytes that do not parse) are not modelled.
\<close>

definition plain_hostname :: "string \<Rightarrow> bool" where
  "plain_hostname h = (h \<noteq> [] \<and> list_all (\<lambda>c. isAlnum c \<or> c = CHR ''-'' \<or> c = CHR ''.'') h)"

definition Parse_https :: "string \<Rightarrow> URL outcome" where
  "Parse_https hostname =
     (if plain_hostname hostname
      then Returns \<lparr>Scheme = ''https'', Host = hostname, Path = [], RawQuery = [], Params = []\<rparr>
      else Unmodelled)"

subsection \<open>The manifest URL builder of main.go\<close>

text \<open>
  The loop \<^verbatim>\<open>for k, v := range toEncode.Query() { params.Add(k, v[0]) }\<close>, over the
  entries of the map in the order the range statement visits them (an order Go does not
  fix). \<^verbatim>\<open>v[0]\<close> panics on an empty slice.
\<close>

fun range_Add :: "(string \<times> string list) list \<Rightarrow> Values \<Rightarrow> Values outcome" where
  "range_Add [] params = Returns params"
| "range_Add ((k, v) # entries) params =
     (case v of
        [] \<Rightarrow> Panics
      | v0 # _ \<Rightarrow> range_Add entries (Add k v0 params))"

text \<open>
  \<^verbatim>\<open>encodeItmsUrl\<close>, given the value of \<^verbatim>\<open>OPERATOR_HOSTNAME\<close> and the order in which the
  range statement visits the entries of \<^verbatim>\<open>toEncode.Query()\<close>.
\<close>

definition encodeItmsUrl_visiting ::
  "string \<Rightarrow> URL \<Rightarrow> (string \<times> string list) list \<Rightarrow> string outcome" where
  "encodeItmsUrl_visiting hostname toEncode entries =
     (case Parse_https hostname of
        Panics \<Rightarrow> Panics
      | Unmodelled \<Rightarrow> Unmodelled
      | Returns directTo \<Rightarrow>
          (case range_Add entries [] of
             Panics \<Rightarrow> Panics
           | Unmodelled \<Rightarrow> Unmodelled
           | Returns params \<Rightarrow>
               Returns (String (directTo\<lparr>Path := Path toEncode,
                  RawQuery := Encode (Add ''plist'' ''true'' params)\<rparr>))))"

text \<open>\<^verbatim>\<open>encodeItmsUrl\<close>, the entries visited in the order of the model's list.\<close>

definition encodeItmsUrl :: "string \<Rightarrow> URL \<Rightarrow> string outcome" where
  "encodeItmsUrl hostname toEncode = encodeItmsUrl_visiting hostname toEncode (Query toEncode)"

subsection \<open>Package net/http: the response writer\<close>

text \<open>
  The response under construction: the header map (keys in canonical form, one value
  each, since the code only calls \<^verbatim>\<open>Set\<close>), the status code once it is written, and
  the body written so far. A handler that returns without writing a status code has
  the server send 200.
\<close>

record ResponseWriter =
  header :: "string \<rightharpoonup> string"
  status :: "nat option"
  body :: string

definition new_response :: ResponseWriter where
  "new_response = \<lparr>header = Map.empty, status = None, body = []\<rparr>"

definition final_status :: "ResponseWriter \<Rightarrow> nat" where
  "final_status rw = (case status rw of None \<Rightarrow> 200 | Some code \<Rightarrow> code)"

text \<open>
  \<^verbatim>\<open>textproto.CanonicalMIMEHeaderKey\<close>: a key of header field bytes gets an upper case
  letter first and after each \<^verbatim>\<open>-\<close> and lower case letters elsewhere; any other key is
  left as it is.
\<close>

definition validHeaderFieldByte :: "char \<Rightarrow> bool" where
  "validHeaderFieldByte c =
     (isAlnum c \<or> c \<in> set (''!#$%&*+-.^_|~'' @ [CHR 0x27, CHR 0x60]))"

definition toUpper :: "char \<Rightarrow> char" where
  "toUpper c =
     (case map_of (zip ''abcdefghijklmnopqrstuvwxyz'' ''ABCDEFGHIJKLMNOPQRSTUVWXYZ'') c of
        None \<Rightarrow> c
      | Some C \<Rightarrow> C)"

definition toLower :: "char \<Rightarrow> char" where
  "toLower c =
     (case map_of (zip ''ABCDEFGHIJKLMNOPQRSTUVWXYZ'' ''abcdefghijklmnopqrstuvwxyz'') c of
        None \<Rightarrow> c
      | Some l \<Rightarrow> l)"

fun canonical_bytes :: "bool \<Rightarrow> string \<Rightarrow> string" where
  "canonical_bytes upper [] = []"
| "canonical_bytes upper (c # cs) =
     (let c' = (if upper then toUpper c else toLower c)
      in c' # canonical_bytes (c' = CHR ''-'') cs)"

definition CanonicalMIMEHeaderKey :: "string \<Rightarrow> string" where
  "CanonicalMIMEHeaderKey s =
     (if list_all validHeaderFieldByte s then canonical_bytes True s else s)"

text \<open>\<^verbatim>\<open>rw.Header().Set(key, value)\<close>.\<close>

definition Header_Set :: "string \<Rightarrow> string \<Rightarrow> ResponseWriter \<Rightarrow> ResponseWriter" where
  "Header_Set key val rw = rw\<lparr>header := (header rw)(CanonicalMIMEHeaderKey key \<mapsto> val)\<rparr>"

text \<open>\<^verbatim>\<open>rw.WriteHeader(code)\<close>: only the first call counts.\<close>

definition WriteHeader :: "nat \<Rightarrow> ResponseWriter \<Rightarrow> ResponseWriter" where
  "WriteHeader code rw = (case status rw of None \<Rightarrow> rw\<lparr>status := Some code\<rparr> | Some _ \<Rightarrow> rw)"

text \<open>\<^verbatim>\<open>rw.Write(data)\<close>: writes status 200 first if no status is written yet.\<close>

definition Write :: "string \<Rightarrow> ResponseWriter \<Rightarrow> ResponseWriter" where
  "Write data rw = (let rw' = WriteHeader 200 rw in rw'\<lparr>body := body rw' @ data\<rparr>)"

text \<open>
  \<^verbatim>\<open>http.Error(rw, error, code)\<close>: the two headers, the status code, and the message
  with a newline as body.
\<close>

definition http_Error :: "ResponseWriter \<Rightarrow> string \<Rightarrow> nat \<Rightarrow> ResponseWriter" where
  "http_Error rw msg code =
     Write (msg @ [newline])
       (WriteHeader code
         (Header_Set ''X-Content-Type-Options'' ''nosniff''
           (Header_Set ''Content-Type'' ''text/plain; charset=utf-8'' rw)))"

text \<open>
  The stream \<^verbatim>\<open>StreamArtifact\<close> returns, as \<^verbatim>\<open>io.Copy\<close> and \<^verbatim>\<open>Close\<close> see it:
  the data of the successive reads that reach the response, whether the copy then ends
  in an error (a failed read, or a failed write to the client) instead of the end of the
  stream, and the error of \<^verbatim>\<open>Close\<close>, if any.
\<close>

record ReadCloser =
  chunks :: "string list"
  copy_err :: "string option"
  close_err :: "string option"

text \<open>\<^verbatim>\<open>io.Copy(rw, src)\<close>: a read of no bytes writes nothing.\<close>

definition io_Copy :: "ResponseWriter \<Rightarrow> ReadCloser \<Rightarrow> ResponseWriter \<times> string option" where
  "io_Copy rw src =
     (foldl (\<lambda>w data. if data = [] then w else Write data w) rw (chunks src), copy_err src)"

subsection \<open>The clients\<close>

text \<open>
  \<^verbatim>\<open>Build\<close>: the build object, as far as the handler reads it.
\<close>

record Build =
  Name :: string
  Annotations :: "string \<rightharpoonup> string"

text \<open>
  Modelled from the spec: the result type of \<^verbatim>\<open>GetBuild\<close>, whose declaration is in
  package openshift. It is the pair \<^verbatim>\<open>ResolveBuild(id) -> (BuildRecord, error)\<close> of the
  interface of the build directory: a build record, also beside an error (never a nil
  pointer, so the handler can read its name for the message of status 500), and the
  error, \<open>Some\<close> of its message.

  The record holds the calls the handler makes on \<^verbatim>\<open>osClient\<close>, \<^verbatim>\<open>jenkinsClient\<close> and
  package plist, whose code is in other packages, the rendering of a build by the verb
  \<^verbatim>\<open>%s\<close>, and the environment variable \<^verbatim>\<open>OPERATOR_HOSTNAME\<close>.
\<close>

record clients =
  GetBuild :: "string \<Rightarrow> Build \<times> string option"
  GetTokenConst :: string
  GetDownloadConst :: string
  GetBuildType :: "Build \<Rightarrow> string go_result"
  GenerateArtifactUrl :: "string \<Rightarrow> string \<Rightarrow> bool \<Rightarrow> string"
  AuthToken :: string
  StreamArtifact :: "string \<Rightarrow> string \<Rightarrow> ReadCloser go_result"
  ProduceXML :: "string \<Rightarrow> string \<Rightarrow> string"
  ProduceHTML :: "string \<Rightarrow> string"
  Sprint_Build :: "Build \<Rightarrow> string"
  OPERATOR_HOSTNAME :: string

text \<open>The calls to the two services and the lines printed, in the order they happen.\<close>

datatype event =
    GetBuild_call string
  | GetBuildType_call
  | StreamArtifact_call string string
  | Close_call
  | Print string

subsection \<open>The handlers of main.go\<close>

text \<open>\<^verbatim>\<open>handleBinaryResponse\<close>; the deferred function runs last, when the stream is open.\<close>

definition handleBinaryResponse ::
  "clients \<Rightarrow> ResponseWriter \<Rightarrow> string \<Rightarrow> string \<Rightarrow> ResponseWriter \<times> event list" where
  "handleBinaryResponse cl rw artifactUrl extension =
     (case StreamArtifact cl artifactUrl (AuthToken cl) of
        Err e \<Rightarrow>
          (http_Error rw ''error when streaming atifact'' 500,
           [StreamArtifact_call artifactUrl (AuthToken cl)])
      | Ok artifactStreamer \<Rightarrow>
          (let deferred =
                 Close_call #
                 (case close_err artifactStreamer of
                    None \<Rightarrow> []
                  | Some e \<Rightarrow>
                      [Print (''error. failed to close file handle. could be leaking resources '' @ e)]);
               rw1 = Header_Set ''content-type'' ''octet/stream'' rw;
               rw2 = Header_Set ''content-disposition''
                       (''attachment; filename='' @ [CHR 0x22] @ extension @ [CHR 0x22]) rw1
           in case io_Copy rw2 artifactStreamer of
                (rw3, Some e) \<Rightarrow>
                  (rw3, StreamArtifact_call artifactUrl (AuthToken cl) #
                        Print (''error writing download of application binary'' @ [newline]) #
                        deferred)
              | (rw3, None) \<Rightarrow>
                  (rw3, StreamArtifact_call artifactUrl (AuthToken cl) # deferred)))"

text \<open>
  \<^verbatim>\<open>handler\<close>, on the URL of the request and a fresh response writer: the response
  and the calls made.
\<close>

definition handler :: "clients \<Rightarrow> URL \<Rightarrow> (ResponseWriter \<times> event list) outcome" where
  "handler cl u =
     (let rw = new_response in
      (case validateURLPath u of
         Err e \<Rightarrow> Returns (http_Error rw ''error parsing request'' 500, [])
       | Ok isValid \<Rightarrow>
      if \<not> isValid then
        Returns (http_Error rw
          ''bad request. route should be called with /<build-id>/download?token=eg-token'' 400, [])
      else
      (case parseToken u of
         Err e \<Rightarrow> Returns (http_Error rw e 400, [])
       | Ok token \<Rightarrow>
      let splitPath = Split (Path u) CHR ''/'' in
      if length splitPath < 2 then
        Returns (http_Error rw ''unable to parse build name from path'' 500, [])
      else
      (case GetBuild cl (splitPath ! 1) of
         (build, Some err) \<Rightarrow>
           if Contains err ''not found'' then
             Returns (http_Error rw (''no resources found for build '' @ splitPath ! 1) 404,
                      [GetBuild_call (splitPath ! 1)])
           else
             Returns (http_Error rw (''error fetching build '' @ Name build) 500,
                      [GetBuild_call (splitPath ! 1)])
       | (build, None) \<Rightarrow>
      let tokenAnnotation = Annotations build (GetTokenConst cl);
          tokenAnnotationVal = (case tokenAnnotation of None \<Rightarrow> [] | Some v \<Rightarrow> v) in
      if tokenAnnotationVal \<noteq> token \<or> tokenAnnotation = None then
        Returns (http_Error rw (''invalid token provided for build '' @ Name build) 403,
                 [GetBuild_call (splitPath ! 1)])
      else
      let downloadAnnotation = Annotations build (GetDownloadConst cl);
          artifactUrl = (case downloadAnnotation of None \<Rightarrow> [] | Some v \<Rightarrow> v) in
      if downloadAnnotation = None \<or> artifactUrl = [] then
        Returns (http_Error rw ''missing annotation on build object'' 500,
                 [GetBuild_call (splitPath ! 1)])
      else
      (case GetBuildType cl build of
         Err e \<Rightarrow>
           Returns (http_Error rw (''no build type found for build '' @ Sprint_Build cl build) 400,
                    [GetBuild_call (splitPath ! 1), GetBuildType_call])
       | Ok buildType \<Rightarrow>
      if buildType = ''android'' then
        (case handleBinaryResponse cl rw artifactUrl (Name build @ ''.apk'') of
           (rw', calls) \<Rightarrow> Returns (rw', GetBuild_call (splitPath ! 1) # GetBuildType_call # calls))
      else if buildType = ''ios'' then
        (if isArtifactRequest u then
           (case handleBinaryResponse cl rw artifactUrl (Name build @ ''.ipa'') of
              (rw', calls) \<Rightarrow>
                Returns (rw', GetBuild_call (splitPath ! 1) # GetBuildType_call # calls))
         else if isPlistRequest u then
           (let xmlResp = ProduceXML cl (GenerateArtifactUrl cl (Name build) token True) (Name build)
            in Returns (Write xmlResp (Header_Set ''content-type'' ''application/xml'' rw),
                        [GetBuild_call (splitPath ! 1), GetBuildType_call]))
         else
           (case encodeItmsUrl (OPERATOR_HOSTNAME cl) u of
              Panics \<Rightarrow> Panics
            | Unmodelled \<Rightarrow> Unmodelled
            | Returns itmsUrl \<Rightarrow>
                Returns (Write (ProduceHTML cl itmsUrl) (Header_Set ''content-type'' ''text/html'' rw),
                         [GetBuild_call (splitPath ! 1), GetBuildType_call])))
      else
        Returns (http_Error rw (''invalid build type found for build '' @ Sprint_Build cl build) 400,
                 [GetBuild_call (splitPath ! 1), GetBuildType_call]))))))"

text \<open>What a returning call of the handler leaves: status sent, body, calls.\<close>

definition returned_status :: "(ResponseWriter \<times> event list) outcome \<Rightarrow> nat option" where
  "returned_status res =
     (case res of Returns (rw, calls) \<Rightarrow> Some (final_status rw) | _ \<Rightarrow> None)"

definition returned_body :: "(ResponseWriter \<times> event list) outcome \<Rightarrow> string option" where
  "returned_body res = (case res of Returns (rw, calls) \<Rightarrow> Some (body rw) | _ \<Rightarrow> None)"

definition returned_header ::
  "(ResponseWriter \<times> event list) outcome \<Rightarrow> string \<Rightarrow> string option" where
  "returned_header res key =
     (case res of Returns (rw, calls) \<Rightarrow> header rw (CanonicalMIMEHeaderKey key) | _ \<Rightarrow> None)"

definition returned_calls :: "(ResponseWriter \<times> event list) outcome \<Rightarrow> event list option" where
  "returned_calls res = (case res of Returns (rw, calls) \<Rightarrow> Some calls | _ \<Rightarrow> None)"

subsection \<open>Example clients and requests\<close>

text \<open>
  A build directory that knows one build, \<open>the_build\<close>, of the given platform type, and
  an artifact store that answers every fetch with \<open>fetched\<close>.
\<close>

definition example_clients ::
  "Build \<Rightarrow> string go_result \<Rightarrow> ReadCloser go_result \<Rightarrow> clients" where
  "example_clients the_build platform fetched =
     \<lparr>GetBuild = (\<lambda>name. if name = Name the_build then (the_build, None)
                          else (\<lparr>Name = [], Annotations = Map.empty\<rparr>,
                                Some (''builds '' @ name @ '' not found''))),
      GetTokenConst = ''token'',
      GetDownloadConst = ''download'',
      GetBuildType = (\<lambda>b. platform),
      GenerateArtifactUrl = (\<lambda>name token plist.
          ''https://gateway.example.com/'' @ name @ ''/download?token='' @ token @
          (if plist then ''&artifact=true'' else [])),
      AuthToken = ''service-credential'',
      StreamArtifact = (\<lambda>url credential. fetched),
      ProduceXML = (\<lambda>url name. ''<plist>'' @ url @ '' '' @ name @ ''</plist>''),
      ProduceHTML = (\<lambda>url. ''<html>'' @ url @ ''</html>''),
      Sprint_Build = (\<lambda>b. ''&Build{Name:'' @ Name b @ ''}''),
      OPERATOR_HOSTNAME = ''gateway.example.com''\<rparr>"

definition build42 :: Build where
  "build42 = \<lparr>Name = ''build42'',
              Annotations = [''token'' \<mapsto> ''right'', ''download'' \<mapsto> ''http://store/a.bin'']\<rparr>"

definition upstream_bytes :: ReadCloser where
  "upstream_bytes = \<lparr>chunks = [''PK'', ''bytes''], copy_err = None, close_err = None\<rparr>"

definition request_URL :: "string \<Rightarrow> (string \<times> string) list \<Rightarrow> URL" where
  "request_URL path params =
     \<lparr>Scheme = [], Host = [], Path = path, RawQuery = [], Params = params\<rparr>"

subsection \<open>Notions of the specification\<close>

text \<open>
  The values of the query parameters of a given name, in the order of the query, and
  the first of them (the empty string when there is none).
\<close>

definition param_values :: "URL \<Rightarrow> string \<Rightarrow> string list" where
  "param_values u key = map snd (filter (\<lambda>p. fst p = key) (Params u))"

definition first_value :: "URL \<Rightarrow> string \<Rightarrow> string" where
  "first_value u key = (case param_values u key of [] \<Rightarrow> [] | v # _ \<Rightarrow> v)"

text \<open>
  The path shape of the specification, \<^verbatim>\<open>/<segment>/download\<close>: a non-empty path
  component followed by the final segment \<^verbatim>\<open>download\<close>.
\<close>

definition spec_path_shape :: "string \<Rightarrow> bool" where
  "spec_path_shape path =
     (case Split path CHR ''/'' of
        [lead, segment, final] \<Rightarrow> lead = [] \<and> segment \<noteq> [] \<and> final = ''download''
      | _ \<Rightarrow> False)"

text \<open>
  A request that passes the validators, resolves to \<open>build\<close>, passes the token check with
  \<open>token\<close> and finds the artifact location \<open>artifactUrl\<close>.
\<close>

definition reaches_dispatch :: "clients \<Rightarrow> URL \<Rightarrow> Build \<Rightarrow> string \<Rightarrow> string \<Rightarrow> bool" where
  "reaches_dispatch cl u build token artifactUrl =
     (validateURLPath u = Ok True \<and> parseToken u = Ok token \<and>
      GetBuild cl (Split (Path u) CHR ''/'' ! 1) = (build, None) \<and>
      Annotations build (GetTokenConst cl) = Some token \<and>
      Annotations build (GetDownloadConst cl) = Some artifactUrl \<and> artifactUrl \<noteq> [])"

text \<open>
  The query string of the manifest URL, in the words of the specification: for the keys
  of the inbound query and \<^verbatim>\<open>plist\<close>, in ascending order, the first inbound value of
  the key, and after it \<^verbatim>\<open>true\<close> for the key \<^verbatim>\<open>plist\<close>; each pair written as
  \<^verbatim>\<open>key=value\<close>, both escaped, the pairs joined by \<^verbatim>\<open>&\<close>.
\<close>

definition manifest_query_pairs :: "(string \<times> string) list \<Rightarrow> (string \<times> string) list" where
  "manifest_query_pairs params =
     concat (map (\<lambda>k. (case map_of params k of None \<Rightarrow> [] | Some v \<Rightarrow> [(k, v)]) @
                        (if k = ''plist'' then [(k, ''true'')] else []))
                 (sort (remdups (''plist'' # map fst params))))"

fun join_query :: "(string \<times> string) list \<Rightarrow> string" where
  "join_query [] = []"
| "join_query [(k, v)] = QueryEscape k @ ''='' @ QueryEscape v"
| "join_query ((k, v) # pair # pairs) =
     QueryEscape k @ ''='' @ QueryEscape v @ ''&'' @ join_query (pair # pairs)"

section \<open>Properties\<close>

subsection \<open>The path pattern and the split of the path\<close>

lemma HasPrefix_iff: "HasPrefix s p \<longleftrightarrow> (\<exists>r. s = p @ r)"
  by (induction s p rule: HasPrefix.induct) auto

lemma match_dotstar_lit_iff:
  "match_dotstar_lit lit s \<longleftrightarrow> (\<exists>m b. s = m @ lit @ b \<and> newline \<notin> set m)"
proof (induction s)
  case Nil
  show ?case by (auto simp: HasPrefix_iff)
next
  case (Cons c cs)
  show ?case
  proof
    assume "match_dotstar_lit lit (c # cs)"
    then consider "HasPrefix (c # cs) lit" | "c \<noteq> newline" "match_dotstar_lit lit cs"
      by auto
    then show "\<exists>m b. c # cs = m @ lit @ b \<and> newline \<notin> set m"
    proof cases
      case 1
      then obtain r where "c # cs = lit @ r" by (auto simp: HasPrefix_iff)
      then have "c # cs = [] @ lit @ r \<and> newline \<notin> set []" by simp
      then show ?thesis by blast
    next
      case 2
      with Cons obtain m b where "cs = m @ lit @ b" "newline \<notin> set m" by blast
      with 2 have "c # cs = (c # m) @ lit @ b \<and> newline \<notin> set (c # m)" by auto
      then show ?thesis by blast
    qed
  next
    assume "\<exists>m b. c # cs = m @ lit @ b \<and> newline \<notin> set m"
    then obtain m b where mb: "c # cs = m @ lit @ b" "newline \<notin> set m" by blast
    show "match_dotstar_lit lit (c # cs)"
    proof (cases m)
      case Nil
      with mb have "HasPrefix (c # cs) lit" by (auto simp: HasPrefix_iff)
      then show ?thesis by simp
    next
      case (Cons x m')
      with mb have "c = x" "cs = m' @ lit @ b" "newline \<notin> set m'" "c \<noteq> newline" by auto
      then have "match_dotstar_lit lit cs" using Cons.IH by blast
      with \<open>c \<noteq> newline\<close> show ?thesis by simp
    qed
  qed
qed

lemma match_here_iff:
  "match_here s \<longleftrightarrow> (\<exists>m b. s = CHR ''/'' # m @ ''/download'' @ b \<and> newline \<notin> set m)"
  by (cases s) (auto simp: match_dotstar_lit_iff)

lemma MatchString_iff:
  "MatchString s \<longleftrightarrow>
     (\<exists>a m b. s = a @ CHR ''/'' # m @ ''/download'' @ b \<and> newline \<notin> set m)"
proof (induction s)
  case Nil
  show ?case by simp
next
  case (Cons c cs)
  show ?case
  proof
    assume "MatchString (c # cs)"
    then consider "match_here (c # cs)" | "MatchString cs" by auto
    then show "\<exists>a m b. c # cs = a @ CHR ''/'' # m @ ''/download'' @ b \<and> newline \<notin> set m"
    proof cases
      case 1
      then obtain m b where "c # cs = [] @ CHR ''/'' # m @ ''/download'' @ b" "newline \<notin> set m"
        unfolding match_here_iff by auto
      then show ?thesis by blast
    next
      case 2
      with Cons obtain a m b where "cs = a @ CHR ''/'' # m @ ''/download'' @ b" "newline \<notin> set m"
        by blast
      then have "c # cs = (c # a) @ CHR ''/'' # m @ ''/download'' @ b \<and> newline \<notin> set m" by simp
      then show ?thesis by blast
    qed
  next
    assume "\<exists>a m b. c # cs = a @ CHR ''/'' # m @ ''/download'' @ b \<and> newline \<notin> set m"
    then obtain a m b where amb: "c # cs = a @ CHR ''/'' # m @ ''/download'' @ b" "newline \<notin> set m"
      by blast
    show "MatchString (c # cs)"
    proof (cases a)
      case Nil
      with amb have "match_here (c # cs)" unfolding match_here_iff by auto
      then show ?thesis by simp
    next
      case (Cons x a')
      with amb have "cs = a' @ CHR ''/'' # m @ ''/download'' @ b" by simp
      with amb(2) have "MatchString cs" using Cons.IH by blast
      then show ?thesis by simp
    qed
  qed
qed

lemma Split_not_Nil: "Split s sep \<noteq> []"
  by (induction s) (auto split: list.splits)

lemma length_Split: "length (Split s sep) = Suc (count_list s sep)"
  by (induction s) (auto split: list.splits simp: Split_not_Nil)

lemma MatchString_two_slashes: "MatchString s \<Longrightarrow> 2 \<le> count_list s CHR ''/''"
  by (auto simp: MatchString_iff)

lemma MatchString_Split: "MatchString s \<Longrightarrow> 3 \<le> length (Split s CHR ''/'')"
  using MatchString_two_slashes [of s] by (simp add: length_Split)

lemma MatchString_Split_guard: "MatchString s \<Longrightarrow> \<not> length (Split s CHR ''/'') < 2"
  using MatchString_Split [of s] by simp

subsection \<open>The branches of the handler\<close>

lemma handler_bad_path:
  "\<not> MatchString (Path u) \<Longrightarrow>
   handler cl u = Returns (http_Error new_response
     ''bad request. route should be called with /<build-id>/download?token=eg-token'' 400, [])"
  by (simp add: handler_def validateURLPath_def)

lemma handler_bad_token:
  "MatchString (Path u) \<Longrightarrow> parseToken u = Err e \<Longrightarrow>
   handler cl u = Returns (http_Error new_response e 400, [])"
  by (simp add: handler_def validateURLPath_def)

lemma handler_resolve_error:
  "MatchString (Path u) \<Longrightarrow> parseToken u = Ok token \<Longrightarrow>
   GetBuild cl (Split (Path u) CHR ''/'' ! 1) = (build, Some err) \<Longrightarrow>
   handler cl u =
     (if Contains err ''not found''
      then Returns (http_Error new_response
             (''no resources found for build '' @ Split (Path u) CHR ''/'' ! 1) 404,
             [GetBuild_call (Split (Path u) CHR ''/'' ! 1)])
      else Returns (http_Error new_response (''error fetching build '' @ Name build) 500,
             [GetBuild_call (Split (Path u) CHR ''/'' ! 1)]))"
  by (simp add: handler_def validateURLPath_def MatchString_Split_guard Let_def)

lemma handler_forbidden:
  "MatchString (Path u) \<Longrightarrow> parseToken u = Ok token \<Longrightarrow>
   GetBuild cl (Split (Path u) CHR ''/'' ! 1) = (build, None) \<Longrightarrow>
   Annotations build (GetTokenConst cl) \<noteq> Some token \<Longrightarrow>
   handler cl u =
     Returns (http_Error new_response (''invalid token provided for build '' @ Name build) 403,
              [GetBuild_call (Split (Path u) CHR ''/'' ! 1)])"
  by (auto simp add: handler_def validateURLPath_def MatchString_Split_guard Let_def split: option.splits)

lemma handler_missing_annotation:
  "MatchString (Path u) \<Longrightarrow> parseToken u = Ok token \<Longrightarrow>
   GetBuild cl (Split (Path u) CHR ''/'' ! 1) = (build, None) \<Longrightarrow>
   Annotations build (GetTokenConst cl) = Some token \<Longrightarrow>
   Annotations build (GetDownloadConst cl) = None \<or> Annotations build (GetDownloadConst cl) = Some [] \<Longrightarrow>
   handler cl u =
     Returns (http_Error new_response ''missing annotation on build object'' 500,
              [GetBuild_call (Split (Path u) CHR ''/'' ! 1)])"
  by (auto simp add: handler_def validateURLPath_def MatchString_Split_guard Let_def split: option.splits)

lemma handler_dispatch:
  "MatchString (Path u) \<Longrightarrow> parseToken u = Ok token \<Longrightarrow>
   GetBuild cl (Split (Path u) CHR ''/'' ! 1) = (build, None) \<Longrightarrow>
   Annotations build (GetTokenConst cl) = Some token \<Longrightarrow>
   Annotations build (GetDownloadConst cl) = Some artifactUrl \<Longrightarrow> artifactUrl \<noteq> [] \<Longrightarrow>
   handler cl u =
     (case GetBuildType cl build of
         Err e \<Rightarrow>
           Returns (http_Error new_response (''no build type found for build '' @ Sprint_Build cl build) 400,
                    [GetBuild_call (Split (Path u) CHR ''/'' ! 1), GetBuildType_call])
       | Ok buildType \<Rightarrow>
      if buildType = ''android'' then
        (case handleBinaryResponse cl new_response artifactUrl (Name build @ ''.apk'') of
           (rw', calls) \<Rightarrow> Returns (rw', GetBuild_call (Split (Path u) CHR ''/'' ! 1) # GetBuildType_call # calls))
      else if buildType = ''ios'' then
        (if isArtifactRequest u then
           (case handleBinaryResponse cl new_response artifactUrl (Name build @ ''.ipa'') of
              (rw', calls) \<Rightarrow>
                Returns (rw', GetBuild_call (Split (Path u) CHR ''/'' ! 1) # GetBuildType_call # calls))
         else if isPlistRequest u then
           Returns (Write (ProduceXML cl (GenerateArtifactUrl cl (Name build) token True) (Name build))
                      (Header_Set ''content-type'' ''application/xml'' new_response),
                        [GetBuild_call (Split (Path u) CHR ''/'' ! 1), GetBuildType_call])
         else
           (case encodeItmsUrl (OPERATOR_HOSTNAME cl) u of
              Panics \<Rightarrow> Panics
            | Unmodelled \<Rightarrow> Unmodelled
            | Returns itmsUrl \<Rightarrow>
                Returns (Write (ProduceHTML cl itmsUrl) (Header_Set ''content-type'' ''text/html'' new_response),
                         [GetBuild_call (Split (Path u) CHR ''/'' ! 1), GetBuildType_call])))
      else
        Returns (http_Error new_response (''invalid build type found for build '' @ Sprint_Build cl build) 400,
                 [GetBuild_call (Split (Path u) CHR ''/'' ! 1), GetBuildType_call]))"
  by (cases "GetBuildType cl build")
     (simp_all add: handler_def validateURLPath_def MatchString_Split_guard Let_def)


subsection \<open>The response writer\<close>

lemma status_http_Error: "status (http_Error new_response msg code) = Some code"
  by (simp add: http_Error_def Write_def WriteHeader_def Header_Set_def new_response_def)

lemma body_http_Error: "body (http_Error new_response msg code) = msg @ [newline]"
  by (simp add: http_Error_def Write_def WriteHeader_def Header_Set_def new_response_def)

lemma status_Write: "status (Write d rw) = Some (final_status rw)"
  by (simp add: Write_def WriteHeader_def final_status_def split: option.splits)

lemma body_Write: "body (Write d rw) = body rw @ d"
  by (simp add: Write_def WriteHeader_def split: option.splits)

lemma header_Write: "header (Write d rw) = header rw"
  by (simp add: Write_def WriteHeader_def split: option.splits)

lemma final_status_Write: "final_status (Write d rw) = final_status rw"
  by (simp add: final_status_def status_Write)

lemma final_status_copy:
  "final_status (foldl (\<lambda>w d. if d = [] then w else Write d w) rw ds) = final_status rw"
  by (induction ds arbitrary: rw) (simp_all add: final_status_Write)

lemma header_copy:
  "header (foldl (\<lambda>w d. if d = [] then w else Write d w) rw ds) = header rw"
  by (induction ds arbitrary: rw) (simp_all add: header_Write)

lemma body_copy:
  "body (foldl (\<lambda>w d. if d = [] then w else Write d w) rw ds) = body rw @ concat ds"
  by (induction ds arbitrary: rw) (simp_all add: body_Write)

lemma status_copy:
  "status (foldl (\<lambda>w d. if d = [] then w else Write d w) rw ds) =
     (if concat ds = [] then status rw else Some (final_status rw))"
proof (induction ds arbitrary: rw)
  case Nil
  show ?case by simp
next
  case (Cons d ds)
  show ?case
    by (simp add: Cons.IH status_Write final_status_Write)
qed

lemma canonical_content_type: "CanonicalMIMEHeaderKey ''content-type'' = ''Content-Type''"
  by code_simp

lemma canonical_Content_Type: "CanonicalMIMEHeaderKey ''Content-Type'' = ''Content-Type''"
  by code_simp

lemma canonical_content_disposition:
  "CanonicalMIMEHeaderKey ''content-disposition'' = ''Content-Disposition''"
  by code_simp

lemma canonical_nosniff:
  "CanonicalMIMEHeaderKey ''X-Content-Type-Options'' = ''X-Content-Type-Options''"
  by code_simp

lemmas canonical_keys = canonical_content_type canonical_Content_Type
  canonical_content_disposition canonical_nosniff

lemma status_Header_Set: "status (Header_Set k v rw) = status rw"
  by (simp add: Header_Set_def)

lemma body_Header_Set: "body (Header_Set k v rw) = body rw"
  by (simp add: Header_Set_def)

lemma final_status_new_headers:
  "final_status (Header_Set k v rw) = final_status rw"
  by (simp add: final_status_def Header_Set_def)

lemma handleBinaryResponse_fetch_error:
  "StreamArtifact cl artifactUrl (AuthToken cl) = Err e \<Longrightarrow>
   handleBinaryResponse cl rw artifactUrl extension =
     (http_Error rw ''error when streaming atifact'' 500,
      [StreamArtifact_call artifactUrl (AuthToken cl)])"
  by (simp add: handleBinaryResponse_def)

lemma handleBinaryResponse_fetched:
  assumes "StreamArtifact cl artifactUrl (AuthToken cl) = Ok src"
    and "handleBinaryResponse cl new_response artifactUrl extension = (rw', calls)"
  shows "final_status rw' = 200"
    and "status rw' \<noteq> Some 500"
    and "body rw' = concat (chunks src)"
    and "header rw' = [''Content-Type'' \<mapsto> ''octet/stream'',
           ''Content-Disposition'' \<mapsto> ''attachment; filename='' @ [CHR 0x22] @ extension @ [CHR 0x22]]"
    and "calls = StreamArtifact_call artifactUrl (AuthToken cl) #
           (case copy_err src of None \<Rightarrow> []
            | Some e \<Rightarrow> [Print (''error writing download of application binary'' @ [newline])]) @
           Close_call #
           (case close_err src of None \<Rightarrow> []
            | Some e \<Rightarrow> [Print (''error. failed to close file handle. could be leaking resources '' @ e)])"
proof -
  let ?rw2 = "Header_Set ''content-disposition''
                (''attachment; filename='' @ [CHR 0x22] @ extension @ [CHR 0x22])
                (Header_Set ''content-type'' ''octet/stream'' new_response)"
  have rw': "rw' = fst (io_Copy ?rw2 src)"
    using assms by (auto simp: handleBinaryResponse_def Let_def split: prod.splits option.splits)
  show "final_status rw' = 200"
    by (simp add: rw' io_Copy_def final_status_copy final_status_new_headers)
       (simp add: final_status_def new_response_def)
  then show "status rw' \<noteq> Some 500"
    by (auto simp: final_status_def)
  show "body rw' = concat (chunks src)"
    by (simp add: rw' io_Copy_def body_copy body_Header_Set) (simp add: new_response_def)
  show "header rw' = [''Content-Type'' \<mapsto> ''octet/stream'',
           ''Content-Disposition'' \<mapsto> ''attachment; filename='' @ [CHR 0x22] @ extension @ [CHR 0x22]]"
    by (simp add: rw' io_Copy_def header_copy)
       (simp add: Header_Set_def new_response_def canonical_keys)
  show "calls = StreamArtifact_call artifactUrl (AuthToken cl) #
           (case copy_err src of None \<Rightarrow> []
            | Some e \<Rightarrow> [Print (''error writing download of application binary'' @ [newline])]) @
           Close_call #
           (case close_err src of None \<Rightarrow> []
            | Some e \<Rightarrow> [Print (''error. failed to close file handle. could be leaking resources '' @ e)])"
    using assms
    by (auto simp: handleBinaryResponse_def Let_def io_Copy_def split: prod.splits option.splits)
qed


lemma final_status_new_response: "final_status new_response = 200"
  by (simp add: final_status_def new_response_def)

lemma parseToken_Err: "parseToken u = Err e \<Longrightarrow> e = ''invalid request, missing token''"
  by (auto simp: parseToken_def split: option.splits list.splits)

lemma handleBinaryResponse_not_parse_failure:
  assumes "handleBinaryResponse cl new_response artifactUrl extension = (rw', calls)"
  shows "\<not> (status rw' = Some 500 \<and> body rw' = ''unable to parse build name from path'' @ [newline])"
proof (cases "StreamArtifact cl artifactUrl (AuthToken cl)")
  case (Ok src)
  from handleBinaryResponse_fetched(2) [OF Ok assms] show ?thesis by simp
next
  case (Err e)
  with assms have "rw' = http_Error new_response ''error when streaming atifact'' 500"
    by (simp add: handleBinaryResponse_fetch_error)
  then show ?thesis by (simp add: body_http_Error)
qed

subsection \<open>Claim C9: an accepted path has a build segment\<close>

text \<open>
  Claim C9. For every URL path that \<^verbatim>\<open>validateURLPath\<close> accepts, splitting the path on
  \<^verbatim>\<open>/\<close> gives at least three pieces, so the test \<^verbatim>\<open>len(splitPath) < 2\<close> of the
  handler is false and \<^verbatim>\<open>splitPath[1]\<close> exists; and the handler never answers with
  status 500 and the message "unable to parse build name from path", whatever the
  request and the clients.
\<close>

theorem accepted_path_has_build_segment:
  "(validateURLPath u = Ok True \<longrightarrow>
      3 \<le> length (Split (Path u) CHR ''/'') \<and> \<not> length (Split (Path u) CHR ''/'') < 2) \<and>
   (\<forall>rw calls. handler cl u = Returns (rw, calls) \<longrightarrow>
      \<not> (status rw = Some 500 \<and> body rw = ''unable to parse build name from path'' @ [newline]))"
proof (intro conjI allI impI)
  assume "validateURLPath u = Ok True"
  then have m: "MatchString (Path u)" by (simp add: validateURLPath_def)
  then show "3 \<le> length (Split (Path u) CHR ''/'')" by (rule MatchString_Split)
  from m show "\<not> length (Split (Path u) CHR ''/'') < 2" by (rule MatchString_Split_guard)
next
  fix rw calls
  assume h: "handler cl u = Returns (rw, calls)"
  let ?bad = "status rw = Some 500 \<and> body rw = ''unable to parse build name from path'' @ [newline]"
  show "\<not> ?bad"
  proof (cases "MatchString (Path u)")
    case False
    from handler_bad_path [OF False, of cl] h show ?thesis
      by (auto simp: status_http_Error)
  next
    case m: True
    show ?thesis
    proof (cases "parseToken u")
      case (Err e)
      from handler_bad_token [OF m Err, of cl] h show ?thesis
        by (auto simp: status_http_Error)
    next
      case (Ok token)
      obtain build err where gb: "GetBuild cl (Split (Path u) CHR ''/'' ! 1) = (build, err)"
        by (cases "GetBuild cl (Split (Path u) CHR ''/'' ! 1)")
      show ?thesis
      proof (cases err)
        case (Some e)
        from handler_resolve_error [OF m Ok gb [unfolded Some]] h show ?thesis
          by (auto simp: status_http_Error body_http_Error split: if_splits)
      next
        case None
        note gb = gb [unfolded None]
        show ?thesis
        proof (cases "Annotations build (GetTokenConst cl) = Some token")
          case False
          from handler_forbidden [OF m Ok gb False] h show ?thesis
            by (auto simp: status_http_Error)
        next
          case tk: True
          show ?thesis
          proof (cases "Annotations build (GetDownloadConst cl) = None \<or>
                        Annotations build (GetDownloadConst cl) = Some []")
            case True
            from handler_missing_annotation [OF m Ok gb tk True] h show ?thesis
              by (auto simp: status_http_Error body_http_Error)
          next
            case False
            then obtain url where dl: "Annotations build (GetDownloadConst cl) = Some url" "url \<noteq> []"
              by auto
            from handler_dispatch [OF m Ok gb tk dl] h show ?thesis
              by (auto simp: status_http_Error body_http_Error status_Write
                    final_status_new_headers final_status_new_response
                  dest: handleBinaryResponse_not_parse_failure
                  split: go_result.splits if_splits prod.splits outcome.splits)
          qed
        qed
      qed
    qed
  qed
qed

theorem accepted_path_has_build_segment_witness:
  "validateURLPath (request_URL ''/b1/download'' []) = Ok True \<and>
   3 \<le> length (Split (Path (request_URL ''/b1/download'' [])) CHR ''/'')"
  using accepted_path_has_build_segment [of "request_URL ''/b1/download'' []"]
  by (simp add: validateURLPath_def request_URL_def newline_def)

subsection \<open>The query of the request\<close>

lemma map_of_map_Add:
  "map_of (map (\<lambda>(k, ws). if k = key then (k, ws @ [val]) else (k, ws)) v) k' =
     (if k' = key then map_option (\<lambda>ws. ws @ [val]) (map_of v k') else map_of v k')"
  by (induction v) auto

lemma map_of_Add:
  "map_of (Add key val v) k' =
     (if k' = key then Some ((case map_of v key of None \<Rightarrow> [] | Some ws \<Rightarrow> ws) @ [val])
      else map_of v k')"
  by (auto simp: Add_def map_of_map_Add map_add_def split: option.splits)

lemma map_of_foldl_Add:
  "map_of (foldl (\<lambda>m (k, v). Add k v m) m ps) key =
     (case map_of m key of
        None \<Rightarrow> (if map snd (filter (\<lambda>p. fst p = key) ps) = [] then None
                 else Some (map snd (filter (\<lambda>p. fst p = key) ps)))
      | Some ws \<Rightarrow> Some (ws @ map snd (filter (\<lambda>p. fst p = key) ps)))"
proof (induction ps arbitrary: m)
  case Nil
  show ?case by (simp split: option.splits)
next
  case (Cons p ps)
  obtain k v where p: "p = (k, v)" by (cases p)
  show ?case
    by (simp add: p Cons.IH map_of_Add split: option.splits)
qed

lemma map_of_Query:
  "map_of (Query u) key =
     (if param_values u key = [] then None else Some (param_values u key))"
  by (simp add: Query_def map_of_foldl_Add param_values_def)

lemma parseToken_param_values:
  "parseToken u =
     (case param_values u ''token'' of
        [t] \<Rightarrow> Ok t
      | _ \<Rightarrow> Err ''invalid request, missing token'')"
  by (simp add: parseToken_def map_of_Query split: list.splits)

lemma Get_Query: "Get (Query u) key = first_value u key"
  by (simp add: Get_def map_of_Query first_value_def split: list.splits)

lemma validateURLPath_iff: "validateURLPath u = Ok b \<longleftrightarrow> b = MatchString (Path u)"
  by (auto simp: validateURLPath_def)

subsection \<open>The status the handler sends\<close>

lemma returned_http_Error:
  "returned_status (Returns (http_Error new_response msg code, calls)) = Some code"
  "returned_body (Returns (http_Error new_response msg code, calls)) = Some (msg @ [newline])"
  "returned_calls (Returns (rw, calls)) = Some calls"
  by (simp_all add: returned_status_def returned_body_def returned_calls_def final_status_def
        status_http_Error body_http_Error)

lemma handleBinaryResponse_final_status:
  assumes "handleBinaryResponse cl new_response artifactUrl extension = (rw', calls)"
  shows "final_status rw' = 200 \<or> final_status rw' = 500"
proof (cases "StreamArtifact cl artifactUrl (AuthToken cl)")
  case (Ok src)
  from handleBinaryResponse_fetched(1) [OF Ok assms] show ?thesis by simp
next
  case (Err e)
  with assms have "rw' = http_Error new_response ''error when streaming atifact'' 500"
    by (simp add: handleBinaryResponse_fetch_error)
  then show ?thesis by (simp add: final_status_def status_http_Error)
qed

lemma final_status_http_Error: "final_status (http_Error new_response msg code) = code"
  by (simp add: final_status_def status_http_Error)

lemma dispatch_status:
  assumes "MatchString (Path u)" and "parseToken u = Ok token"
    and "GetBuild cl (Split (Path u) CHR ''/'' ! 1) = (build, None)"
    and "Annotations build (GetTokenConst cl) = Some token"
  shows "returned_status (handler cl u) \<in> {None, Some 200, Some 400, Some 500}"
proof (cases "Annotations build (GetDownloadConst cl) = None \<or>
              Annotations build (GetDownloadConst cl) = Some []")
  case True
  from handler_missing_annotation [OF assms True] show ?thesis
    by (simp add: returned_http_Error)
next
  case False
  then obtain url where dl: "Annotations build (GetDownloadConst cl) = Some url" "url \<noteq> []"
    by auto
  show ?thesis
    unfolding handler_dispatch [OF assms dl]
    by (auto simp: returned_status_def final_status_http_Error final_status_Write
          final_status_new_headers final_status_new_response
        dest: handleBinaryResponse_final_status
        split: go_result.splits prod.splits outcome.splits)
qed

subsection \<open>What the path validator rejects\<close>

text \<open>
  \<^verbatim>\<open>validateURLPath\<close> rejects a path exactly when the path has no \<^verbatim>\<open>/\<close> followed by
  a run of characters other than newline and then by \<^verbatim>\<open>/download\<close>; for such a path
  the handler answers 400 and calls nothing.
\<close>

lemma unmatched_path_is_rejected:
  "(validateURLPath u = Ok False \<longleftrightarrow>
      \<not> (\<exists>a m b. Path u = a @ ''/'' @ m @ ''/download'' @ b \<and> newline \<notin> set m)) \<and>
   (validateURLPath u = Ok False \<longrightarrow>
      returned_status (handler cl u) = Some 400 \<and> returned_calls (handler cl u) = Some [])"
proof (intro conjI impI)
  show "validateURLPath u = Ok False \<longleftrightarrow>
      \<not> (\<exists>a m b. Path u = a @ ''/'' @ m @ ''/download'' @ b \<and> newline \<notin> set m)"
    by (simp add: validateURLPath_iff MatchString_iff)
next
  assume "validateURLPath u = Ok False"
  then have "\<not> MatchString (Path u)" by (simp add: validateURLPath_iff)
  from handler_bad_path [OF this, of cl]
  show "returned_status (handler cl u) = Some 400" "returned_calls (handler cl u) = Some []"
    by (simp_all add: returned_http_Error)
qed

subsection \<open>Claim C2: paths outside the route pass the validator\<close>

text \<open>
  Claim C2. The claim asks for status 400, before any call, for every path that is not
  of the shape \<^verbatim>\<open>/<segment>/download\<close>, the route that the handler's own message of
  status 400 states. The pattern of the validator is not anchored, and the handler
  does otherwise: the path \<^verbatim>\<open>/build42/downloads\<close> is not of the shape, passes the
  validator, and the handler resolves build42 and streams its artifact with status
  200; the path \<^verbatim>\<open>/x/build42/download/y\<close> is not of the shape, passes the validator,
  and the handler asks the build directory for the build \<^verbatim>\<open>x\<close>.
\<close>

theorem path_outside_route_accepted:
  "\<not> spec_path_shape ''/build42/downloads'' \<and>
   validateURLPath (request_URL ''/build42/downloads'' [(''token'', ''right'')]) = Ok True \<and>
   returned_status (handler (example_clients build42 (Ok ''android'') (Ok upstream_bytes))
     (request_URL ''/build42/downloads'' [(''token'', ''right'')])) = Some 200 \<and>
   returned_calls (handler (example_clients build42 (Ok ''android'') (Ok upstream_bytes))
     (request_URL ''/build42/downloads'' [(''token'', ''right'')])) =
     Some [GetBuild_call ''build42'', GetBuildType_call,
           StreamArtifact_call ''http://store/a.bin'' ''service-credential'', Close_call] \<and>
   \<not> spec_path_shape ''/x/build42/download/y'' \<and>
   validateURLPath (request_URL ''/x/build42/download/y'' [(''token'', ''right'')]) = Ok True \<and>
   returned_status (handler (example_clients build42 (Ok ''android'') (Ok upstream_bytes))
     (request_URL ''/x/build42/download/y'' [(''token'', ''right'')])) = Some 404 \<and>
   returned_calls (handler (example_clients build42 (Ok ''android'') (Ok upstream_bytes))
     (request_URL ''/x/build42/download/y'' [(''token'', ''right'')])) =
     Some [GetBuild_call ''x'']"
  by code_simp

theorem path_outside_route_accepted_witness:
  "parseToken (request_URL ''/build42/downloads'' [(''token'', ''right'')]) = Ok ''right'' \<and>
   Annotations build42 ''token'' = Some ''right'' \<and>
   Annotations build42 ''download'' = Some ''http://store/a.bin'' \<and>
   returned_status (handler (example_clients build42 (Ok ''android'') (Ok upstream_bytes))
     (request_URL ''/build42/downloads'' [(''token'', ''right'')])) = Some 200 \<and>
   returned_calls (handler (example_clients build42 (Ok ''android'') (Ok upstream_bytes))
     (request_URL ''/build42/downloads'' [(''token'', ''right'')])) \<noteq> Some []"
proof -
  have p: "parseToken (request_URL ''/build42/downloads'' [(''token'', ''right'')]) = Ok ''right''"
    by code_simp
  have a: "Annotations build42 ''token'' = Some ''right''"
    "Annotations build42 ''download'' = Some ''http://store/a.bin''"
    by (simp_all add: build42_def)
  from path_outside_route_accepted
  have s: "returned_status (handler (example_clients build42 (Ok ''android'') (Ok upstream_bytes))
       (request_URL ''/build42/downloads'' [(''token'', ''right'')])) = Some 200"
    and c: "returned_calls (handler (example_clients build42 (Ok ''android'') (Ok upstream_bytes))
       (request_URL ''/build42/downloads'' [(''token'', ''right'')])) =
       Some [GetBuild_call ''build42'', GetBuildType_call,
             StreamArtifact_call ''http://store/a.bin'' ''service-credential'', Close_call]"
    by blast+
  from c have "returned_calls (handler (example_clients build42 (Ok ''android'') (Ok upstream_bytes))
       (request_URL ''/build42/downloads'' [(''token'', ''right'')])) \<noteq> Some []"
    by simp
  with p a s show ?thesis by blast
qed

subsection \<open>Claim C3: the number of token parameters is checked\<close>

text \<open>
  Claim C3, as the code has it. For every request whose query has no \<^verbatim>\<open>token\<close>
  parameter or more than one, the handler answers 400 and makes no call to the build
  directory. A single \<^verbatim>\<open>token\<close> parameter passes \<^verbatim>\<open>parseToken\<close> whatever its value,
  the empty value included.
\<close>

theorem token_count_is_checked:
  "(length (param_values u ''token'') \<noteq> 1 \<longrightarrow>
      returned_status (handler cl u) = Some 400 \<and> returned_calls (handler cl u) = Some []) \<and>
   (param_values u ''token'' = [t] \<longrightarrow> parseToken u = Ok t)"
proof (intro conjI impI)
  assume n: "length (param_values u ''token'') \<noteq> 1"
  then have e: "parseToken u = Err ''invalid request, missing token''"
    by (auto simp: parseToken_param_values split: list.splits)
  have "handler cl u = Returns (http_Error new_response
          ''bad request. route should be called with /<build-id>/download?token=eg-token'' 400, [])
      \<or> handler cl u = Returns (http_Error new_response ''invalid request, missing token'' 400, [])"
    using handler_bad_path [of u cl] handler_bad_token [OF _ e, of cl] by blast
  then show "returned_status (handler cl u) = Some 400" "returned_calls (handler cl u) = Some []"
    by (auto simp: returned_http_Error)
next
  assume "param_values u ''token'' = [t]"
  then show "parseToken u = Ok t" by (simp add: parseToken_param_values)
qed

theorem token_count_is_checked_witness:
  "length (param_values (request_URL ''/b1/download'' [(''token'', ''a''), (''token'', ''b'')]) ''token'') \<noteq> 1 \<and>
   returned_status (handler (example_clients build42 (Ok ''android'') (Ok upstream_bytes))
     (request_URL ''/b1/download'' [(''token'', ''a''), (''token'', ''b'')])) = Some 400 \<and>
   param_values (request_URL ''/b1/download'' [(''token'', ''a'')]) ''token'' = [''a''] \<and>
   parseToken (request_URL ''/b1/download'' [(''token'', ''a'')]) = Ok ''a''"
  using token_count_is_checked [of "request_URL ''/b1/download'' [(''token'', ''a''), (''token'', ''b'')]"
      "example_clients build42 (Ok ''android'') (Ok upstream_bytes)"]
    token_count_is_checked [of "request_URL ''/b1/download'' [(''token'', ''a'')]" _ "''a''"]
  by (simp add: param_values_def request_URL_def)

text \<open>
  The claim as stated fails: a single \<^verbatim>\<open>token\<close> parameter with the empty value is not
  answered with 400; the handler goes on to resolve the build (here unknown, hence 404).
\<close>

theorem empty_token_counterexample:
  "param_values (request_URL ''/b1/download'' [(''token'', [])]) ''token'' = [[]] \<and>
   returned_status (handler (example_clients build42 (Ok ''android'') (Ok upstream_bytes))
     (request_URL ''/b1/download'' [(''token'', [])])) = Some 404 \<and>
   returned_calls (handler (example_clients build42 (Ok ''android'') (Ok upstream_bytes))
     (request_URL ''/b1/download'' [(''token'', [])])) = Some [GetBuild_call ''b1'']"
  by code_simp

subsection \<open>Claim C1: the token check\<close>

text \<open>
  Claim C1, as the code has it. For every request that passes the validators and whose
  build is resolved, the request passes the token check (is not answered with 403) if and
  only if its one \<^verbatim>\<open>token\<close> parameter equals, byte for byte, the value of the token
  annotation of the build, which must be present; the token need not be non-empty. If
  the annotation is absent or differs, the handler answers 403 with a message that
  names the build, having called nothing but the build directory.
\<close>

theorem token_check_decides_authorization:
  assumes "validateURLPath u = Ok True" and "parseToken u = Ok token"
    and "GetBuild cl (Split (Path u) CHR ''/'' ! 1) = (build, None)"
  shows "(returned_status (handler cl u) \<noteq> Some 403 \<longleftrightarrow>
            param_values u ''token'' = [token] \<and>
            Annotations build (GetTokenConst cl) = Some token) \<and>
         (Annotations build (GetTokenConst cl) \<noteq> Some token \<longrightarrow>
            handler cl u =
              Returns (http_Error new_response
                         (''invalid token provided for build '' @ Name build) 403,
                       [GetBuild_call (Split (Path u) CHR ''/'' ! 1)]))"
proof -
  from assms(1) have m: "MatchString (Path u)" by (simp add: validateURLPath_iff)
  from assms(2) have pv: "param_values u ''token'' = [token]"
    by (auto simp: parseToken_param_values split: list.splits)
  show ?thesis
  proof (cases "Annotations build (GetTokenConst cl) = Some token")
    case True
    from dispatch_status [OF m assms(2,3) True] have "returned_status (handler cl u) \<noteq> Some 403"
      by auto
    with True pv show ?thesis by simp
  next
    case False
    from handler_forbidden [OF m assms(2,3) False] False show ?thesis
      by (simp add: returned_http_Error)
  qed
qed

theorem token_check_decides_authorization_witness:
  "validateURLPath (request_URL ''/build42/download'' [(''token'', ''wrong'')]) = Ok True \<and>
   parseToken (request_URL ''/build42/download'' [(''token'', ''wrong'')]) = Ok ''wrong'' \<and>
   returned_status (handler (example_clients build42 (Ok ''android'') (Ok upstream_bytes))
     (request_URL ''/build42/download'' [(''token'', ''wrong'')])) = Some 403 \<and>
   returned_body (handler (example_clients build42 (Ok ''android'') (Ok upstream_bytes))
     (request_URL ''/build42/download'' [(''token'', ''wrong'')])) =
     Some (''invalid token provided for build build42'' @ [newline])"
proof -
  let ?u = "request_URL ''/build42/download'' [(''token'', ''wrong'')]"
  let ?cl = "example_clients build42 (Ok ''android'') (Ok upstream_bytes)"
  have v: "validateURLPath ?u = Ok True" by code_simp
  have p: "parseToken ?u = Ok ''wrong''" by code_simp
  have sp: "Split (Path ?u) CHR ''/'' ! 1 = ''build42''" by code_simp
  have g: "GetBuild ?cl (Split (Path ?u) CHR ''/'' ! 1) = (build42, None)"
    unfolding sp by (simp add: example_clients_def build42_def)
  have a: "Annotations build42 (GetTokenConst ?cl) \<noteq> Some ''wrong''" by code_simp
  have n: "Name build42 = ''build42''" by code_simp
  from token_check_decides_authorization [OF v p g] a
  have "handler ?cl ?u = Returns (http_Error new_response
          (''invalid token provided for build '' @ Name build42) 403,
          [GetBuild_call (Split (Path ?u) CHR ''/'' ! 1)])"
    by blast
  then show ?thesis using v p by (simp add: returned_http_Error n)
qed

text \<open>
  The claim as stated fails: an empty token is authorized when the token annotation of
  the build is the empty string; the artifact is streamed.
\<close>

theorem empty_token_authorized_counterexample:
  "parseToken (request_URL ''/build42/download'' [(''token'', [])]) = Ok [] \<and>
   returned_status (handler
     (example_clients \<lparr>Name = ''build42'',
         Annotations = [''token'' \<mapsto> [], ''download'' \<mapsto> ''http://store/a.bin'']\<rparr>
       (Ok ''android'') (Ok upstream_bytes))
     (request_URL ''/build42/download'' [(''token'', [])])) = Some 200 \<and>
   returned_body (handler
     (example_clients \<lparr>Name = ''build42'',
         Annotations = [''token'' \<mapsto> [], ''download'' \<mapsto> ''http://store/a.bin'']\<rparr>
       (Ok ''android'') (Ok upstream_bytes))
     (request_URL ''/build42/download'' [(''token'', [])])) = Some ''PKbytes''"
  by code_simp

subsection \<open>Query values: keys and entries\<close>

lemma keys_Add:
  "map fst (Add key val v) = (if key \<in> fst ` set v then map fst v else map fst v @ [key])"
proof (cases "map_of v key")
  case None
  moreover from None have "key \<notin> fst ` set v" by (simp add: map_of_eq_None_iff)
  ultimately show ?thesis by (simp add: Add_def)
next
  case (Some ws)
  then have "key \<in> fst ` set v" by (metis map_of_eq_None_iff option.distinct(1))
  moreover have "map fst (map (\<lambda>(k, ws). if k = key then (k, ws @ [val]) else (k, ws)) v) = map fst v"
    by (induction v) auto
  ultimately show ?thesis using Some by (simp add: Add_def)
qed

lemma set_keys_Add: "fst ` set (Add key val v) = insert key (fst ` set v)"
proof -
  have "set (map fst (Add key val v)) = insert key (set (map fst v))"
    unfolding keys_Add by (cases "key \<in> fst ` set v") auto
  then show ?thesis by simp
qed

lemma distinct_keys_Add: "distinct (map fst v) \<Longrightarrow> distinct (map fst (Add key val v))"
  by (simp add: keys_Add)

lemma Add_not_Nil: "Add key val v \<noteq> []"
  by (auto simp: Add_def split: option.splits)

lemma distinct_keys_foldl_Add:
  "distinct (map fst m) \<Longrightarrow> distinct (map fst (foldl (\<lambda>m (k, v). Add k v m) m ps))"
  by (induction ps arbitrary: m) (auto simp: distinct_keys_Add)

lemma set_keys_foldl_Add:
  "fst ` set (foldl (\<lambda>m (k, v). Add k v m) m ps) = fst ` set m \<union> fst ` set ps"
proof (induction ps arbitrary: m)
  case Nil
  show ?case by simp
next
  case (Cons p ps)
  obtain k v where p: "p = (k, v)" by (cases p)
  show ?case by (simp add: p Cons.IH set_keys_Add)
qed

lemma distinct_keys_Query: "distinct (map fst (Query u))"
  by (simp add: Query_def distinct_keys_foldl_Add)

lemma set_keys_Query: "fst ` set (Query u) = fst ` set (Params u)"
  by (simp add: Query_def set_keys_foldl_Add)

lemma Query_values_not_Nil: "(k, vs) \<in> set (Query u) \<Longrightarrow> vs \<noteq> []"
proof -
  assume "(k, vs) \<in> set (Query u)"
  then have "map_of (Query u) k = Some vs" by (simp add: distinct_keys_Query)
  then show ?thesis by (auto simp: map_of_Query split: if_splits)
qed

text \<open>The loop over the entries\<close>

lemma range_Add_returns:
  "\<forall>(k, vs) \<in> set entries. vs \<noteq> [] \<Longrightarrow>
   range_Add entries params = Returns (foldl (\<lambda>p (k, vs). Add k (hd vs) p) params entries)"
proof (induction entries arbitrary: params)
  case Nil
  show ?case by simp
next
  case (Cons e entries)
  obtain k vs where e: "e = (k, vs)" by (cases e)
  with Cons.prems obtain v0 rest where vs: "vs = v0 # rest" by (cases vs) auto
  from Cons.prems have "\<forall>(k, vs) \<in> set entries. vs \<noteq> []" by simp
  from Cons.IH [OF this] show ?case by (simp add: e vs)
qed

lemma map_of_first_values:
  "distinct (map fst entries) \<Longrightarrow>
   map_of (foldl (\<lambda>p (k, vs). Add k (hd vs) p) params entries) key =
     (case map_of entries key of
        None \<Rightarrow> map_of params key
      | Some vs \<Rightarrow> Some ((case map_of params key of None \<Rightarrow> [] | Some ws \<Rightarrow> ws) @ [hd vs]))"
proof (induction entries arbitrary: params)
  case Nil
  show ?case by simp
next
  case (Cons e entries)
  obtain k vs where e: "e = (k, vs)" by (cases e)
  from Cons.prems have d: "distinct (map fst entries)" and k: "k \<notin> fst ` set entries"
    by (auto simp: e)
  from k have n: "map_of entries k = None" by (simp add: map_of_eq_None_iff)
  show ?case
    using n by (auto simp: e Cons.IH [OF d] map_of_Add split: option.splits)
qed

lemma set_keys_first_values:
  "fst ` set (foldl (\<lambda>p (k, vs). Add k (hd vs) p) params entries) =
     fst ` set params \<union> fst ` set entries"
proof (induction entries arbitrary: params)
  case Nil
  show ?case by simp
next
  case (Cons e entries)
  obtain k vs where e: "e = (k, vs)" by (cases e)
  show ?case by (simp add: e Cons.IH set_keys_Add)
qed

lemma distinct_keys_first_values:
  "distinct (map fst params) \<Longrightarrow>
   distinct (map fst (foldl (\<lambda>p (k, vs). Add k (hd vs) p) params entries))"
  by (induction entries arbitrary: params) (auto simp: distinct_keys_Add)

subsection \<open>The encoded query\<close>

lemma Encode_value_not_Nil: "Encode_value keyEscaped buf val \<noteq> []"
  by (simp add: Encode_value_def)

lemma foldl_Encode_value:
  "foldl (Encode_value (QueryEscape k)) buf vs =
     foldl (\<lambda>buf (k, v). Encode_value (QueryEscape k) buf v) buf (map (Pair k) vs)"
  by (induction vs arbitrary: buf) simp_all

lemma foldl_Encode_key:
  "foldl (Encode_key V) buf ks =
     foldl (\<lambda>buf (k, v). Encode_value (QueryEscape k) buf v) buf
       (concat (map (\<lambda>k. map (Pair k) (case map_of V k of None \<Rightarrow> [] | Some vs \<Rightarrow> vs)) ks))"
  by (induction ks arbitrary: buf) (simp_all add: Encode_key_def foldl_Encode_value)

lemma foldl_Encode_value_join:
  "foldl (\<lambda>buf (k, v). Encode_value (QueryEscape k) buf v) buf pairs =
     (if pairs = [] then buf else (if buf = [] then [] else buf @ ''&'') @ join_query pairs)"
proof (induction pairs arbitrary: buf)
  case Nil
  show ?case by simp
next
  case (Cons p pairs)
  obtain k v where p: "p = (k, v)" by (cases p)
  show ?case
  proof (cases pairs)
    case Nil
    then show ?thesis by (simp add: p Encode_value_def)
  next
    case (Cons q qs)
    have "foldl (\<lambda>buf (k, v). Encode_value (QueryEscape k) buf v) buf (p # pairs) =
          (Encode_value (QueryEscape k) buf v @ ''&'') @ join_query pairs"
      using Cons.IH [of "Encode_value (QueryEscape k) buf v"] Cons
      by (simp add: p Encode_value_not_Nil)
    then show ?thesis by (simp add: p Cons Encode_value_def)
  qed
qed

lemma foldl_Encode_value_join_Nil:
  "foldl (\<lambda>buf (k, v). Encode_value (QueryEscape k) buf v) [] pairs = join_query pairs"
  by (cases pairs) (simp_all add: foldl_Encode_value_join del: foldl_Cons)

lemma Encode_join:
  "V \<noteq> [] \<Longrightarrow>
   Encode V = join_query (concat (map (\<lambda>k. map (Pair k)
                (case map_of V k of None \<Rightarrow> [] | Some vs \<Rightarrow> vs)) (sort (map fst V))))"
  by (simp add: Encode_def foldl_Encode_key foldl_Encode_value_join_Nil)

lemma map_of_Params:
  "map_of (Params u) key = (case param_values u key of [] \<Rightarrow> None | v # _ \<Rightarrow> Some v)"
proof -
  have "map_of ps key = (case map snd (filter (\<lambda>p. fst p = key) ps) of [] \<Rightarrow> None | v # _ \<Rightarrow> Some v)"
    for ps :: "(string \<times> string) list"
    by (induction ps) auto
  then show ?thesis by (simp add: param_values_def)
qed

lemma sort_keys_unique:
  fixes xs ys :: "string list"
  assumes "distinct xs" and "set xs = set ys"
  shows "sort xs = sort (remdups ys)"
proof (rule sorted_distinct_set_unique)
  show "sorted (sort xs)" "sorted (sort (remdups ys))" by simp_all
  show "distinct (sort xs)" using assms(1) by simp
  show "distinct (sort (remdups ys))" by simp
  show "set (sort xs) = set (sort (remdups ys))" using assms(2) by simp
qed

lemma visited_entries:
  assumes "mset entries = mset (Query u)"
  shows "distinct (map fst entries)" and "map_of entries = map_of (Query u)"
    and "\<forall>(k, vs) \<in> set entries. vs \<noteq> []"
proof -
  from assms have "mset (map fst entries) = mset (map fst (Query u))"
    by (metis mset_map)
  then show d: "distinct (map fst entries)"
    using distinct_keys_Query [of u] by (metis mset_eq_imp_distinct_iff)
  from assms have s: "set entries = set (Query u)" by (rule mset_eq_setD)
  with d show "map_of entries = map_of (Query u)"
    by (simp add: map_of_inject_set distinct_keys_Query)
  from s show "\<forall>(k, vs) \<in> set entries. vs \<noteq> []"
    by (auto dest: Query_values_not_Nil)
qed

lemma manifest_values:
  assumes "mset entries = mset (Query u)"
  defines "V \<equiv> Add ''plist'' ''true'' (foldl (\<lambda>p (k, vs). Add k (hd vs) p) [] entries)"
  shows "range_Add entries [] = Returns (foldl (\<lambda>p (k, vs). Add k (hd vs) p) [] entries)"
    and "Encode V = join_query (manifest_query_pairs (Params u))"
proof -
  note e = visited_entries [OF assms(1)]
  show "range_Add entries [] = Returns (foldl (\<lambda>p (k, vs). Add k (hd vs) p) [] entries)"
    by (rule range_Add_returns) (rule e(3))
  let ?W = "foldl (\<lambda>p (k, vs). Add k (hd vs) p) [] entries"
  have W: "map_of ?W key = (case map_of (Params u) key of None \<Rightarrow> None | Some v \<Rightarrow> Some [v])" for key
    by (simp add: map_of_first_values [OF e(1)] e(2) map_of_Query map_of_Params
          split: list.splits)
  have vals: "(case map_of V key of None \<Rightarrow> [] | Some vs \<Rightarrow> vs) =
        (case map_of (Params u) key of None \<Rightarrow> [] | Some v \<Rightarrow> [v]) @
        (if key = ''plist'' then [''true''] else [])" for key
    by (simp add: V_def map_of_Add W split: option.splits)
  have "fst ` set entries = fst ` set (Query u)"
    using assms(1) by (metis mset_eq_setD)
  then have keys: "set (map fst V) = set (''plist'' # map fst (Params u))"
    by (simp add: V_def set_keys_Add set_keys_first_values set_keys_Query)
  have "distinct (map fst V)"
    by (simp add: V_def distinct_keys_Add distinct_keys_first_values)
  from sort_keys_unique [OF this keys]
  have sorted_keys: "sort (map fst V) = sort (remdups (''plist'' # map fst (Params u)))" .
  have "V \<noteq> []" by (simp add: V_def Add_not_Nil)
  then have "Encode V = join_query (concat (map (\<lambda>k. map (Pair k)
                (case map_of V k of None \<Rightarrow> [] | Some vs \<Rightarrow> vs)) (sort (map fst V))))"
    by (rule Encode_join)
  also have "(\<lambda>k. map (Pair k) (case map_of V k of None \<Rightarrow> [] | Some vs \<Rightarrow> vs)) =
     (\<lambda>k. (case map_of (Params u) k of None \<Rightarrow> [] | Some v \<Rightarrow> [(k, v)]) @
                        (if k = ''plist'' then [(k, ''true'')] else []))"
    by (rule ext) (simp add: vals split: option.splits)
  finally show "Encode V = join_query (manifest_query_pairs (Params u))"
    by (simp add: sorted_keys manifest_query_pairs_def)
qed

subsection \<open>Printing the manifest URL\<close>

lemma plain_byte_not_escaped:
  "isAlnum c \<or> c = CHR ''-'' \<or> c = CHR ''.'' \<Longrightarrow> \<not> shouldEscape c encodeHost"
  by (auto simp: shouldEscape_def)

lemma escape_plain_hostname: "plain_hostname h \<Longrightarrow> escape h encodeHost = h"
proof -
  have "list_all (\<lambda>c. isAlnum c \<or> c = CHR ''-'' \<or> c = CHR ''.'') h \<Longrightarrow> escape h encodeHost = h"
    by (induction h) (simp_all add: plain_byte_not_escaped)
  then show "plain_hostname h \<Longrightarrow> escape h encodeHost = h"
    by (simp add: plain_hostname_def)
qed

lemma slash_not_escaped: "\<not> shouldEscape CHR ''/'' encodePath"
  by code_simp

lemma escape_rooted_path:
  "HasPrefix p ''/'' \<Longrightarrow> HasPrefix (escape p encodePath) ''/''"
  by (cases p) (simp_all add: slash_not_escaped)

lemma escape_unreserved:
  "list_all (\<lambda>c. \<not> shouldEscape c mode) s \<Longrightarrow> escape s mode = s"
  by (induction s) simp_all

lemma String_https:
  assumes "plain_hostname h" and "HasPrefix p ''/''" and "q \<noteq> []"
  shows "String \<lparr>Scheme = ''https'', Host = h, Path = p, RawQuery = q, Params = ps\<rparr> =
           ''https://'' @ h @ escape p encodePath @ ''?'' @ q"
proof -
  from assms(1) have h: "h \<noteq> []" by (simp add: plain_hostname_def)
  from assms(2) have p: "p \<noteq> ''*''" by auto
  from escape_rooted_path [OF assms(2)] have e: "HasPrefix (escape p encodePath) ''/''" .
  show ?thesis
    using h p e assms(3)
    by (simp add: String_def EscapedPath_def Let_def escape_plain_hostname [OF assms(1)])
qed

lemma plist_in_manifest_query_pairs: "(''plist'', ''true'') \<in> set (manifest_query_pairs ps)"
  by (auto simp: manifest_query_pairs_def intro!: bexI [of _ "''plist''"])

lemma join_query_not_Nil: "pairs \<noteq> [] \<Longrightarrow> join_query pairs \<noteq> []"
  by (induction pairs rule: join_query.induct) simp_all

lemma manifest_query_not_Nil: "join_query (manifest_query_pairs ps) \<noteq> []"
  using plist_in_manifest_query_pairs [of ps] by (intro join_query_not_Nil) auto

lemma encodeItmsUrl_visiting_eq:
  assumes "plain_hostname h" and "mset entries = mset (Query u)"
  shows "encodeItmsUrl_visiting h u entries =
     Returns (String \<lparr>Scheme = ''https'', Host = h, Path = Path u,
                RawQuery = join_query (manifest_query_pairs (Params u)), Params = []\<rparr>)"
  using assms(1) manifest_values [OF assms(2)]
  by (simp add: encodeItmsUrl_visiting_def Parse_https_def)

lemma encodeItmsUrl_unmodelled:
  "\<not> plain_hostname h \<Longrightarrow> encodeItmsUrl_visiting h u entries = Unmodelled"
  by (simp add: encodeItmsUrl_visiting_def Parse_https_def)

lemma encodeItmsUrl_eq:
  "plain_hostname h \<Longrightarrow>
   encodeItmsUrl h u =
     Returns (String \<lparr>Scheme = ''https'', Host = h, Path = Path u,
                RawQuery = join_query (manifest_query_pairs (Params u)), Params = []\<rparr>)"
  by (simp add: encodeItmsUrl_def encodeItmsUrl_visiting_eq)

lemma manifest_query_pairs_cong:
  assumes "set (map fst ps) = set (map fst qs)" and "map_of ps = map_of qs"
  shows "manifest_query_pairs ps = manifest_query_pairs qs"
proof -
  have "sort (remdups (''plist'' # map fst ps)) = sort (remdups (''plist'' # map fst qs))"
  proof (rule sorted_distinct_set_unique)
    show "set (sort (remdups (''plist'' # map fst ps))) =
          set (sort (remdups (''plist'' # map fst qs)))"
      using assms(1) by simp
  qed simp_all
  then show ?thesis by (simp add: manifest_query_pairs_def assms(2))
qed

lemma param_values_Nil_iff: "param_values u key = [] \<longleftrightarrow> key \<notin> fst ` set (Params u)"
  by (auto simp: param_values_def filter_empty_conv)

subsection \<open>Claim C6: the manifest URL\<close>

text \<open>
  Claim C6, as the code has it. For the inbound URL
  \<^verbatim>\<open>https://host/b1/download?token=abc\<close> and the host name \<^verbatim>\<open>gateway.example.com\<close>,
  \<^verbatim>\<open>encodeItmsUrl\<close> returns
  \<^verbatim>\<open>https://gateway.example.com/b1/download?plist=true&token=abc\<close>. In general, for a
  host name of letters, digits, \<^verbatim>\<open>-\<close> and \<^verbatim>\<open>.\<close> and a path that starts with \<^verbatim>\<open>/\<close>, it
  returns the scheme \<^verbatim>\<open>https\<close>, the configured host, the path of the inbound URL
  escaped as a path, and the query that holds, in ascending order of the keys, the
  first value of every inbound key and \<^verbatim>\<open>plist=true\<close>, escaped and joined by \<^verbatim>\<open>&\<close>.
  The path is in the result unchanged when none of its bytes is one that path escaping
  changes.
\<close>

theorem manifest_url:
  "encodeItmsUrl ''gateway.example.com''
     \<lparr>Scheme = ''https'', Host = ''host'', Path = ''/b1/download'', RawQuery = ''token=abc'',
      Params = [(''token'', ''abc'')]\<rparr> =
     Returns ''https://gateway.example.com/b1/download?plist=true&token=abc'' \<and>
   (plain_hostname hostname \<and> HasPrefix (Path u) ''/'' \<longrightarrow>
      encodeItmsUrl hostname u =
        Returns (''https://'' @ hostname @ escape (Path u) encodePath @ ''?'' @
                 join_query (manifest_query_pairs (Params u)))) \<and>
   (plain_hostname hostname \<and> HasPrefix (Path u) ''/'' \<and>
    list_all (\<lambda>c. \<not> shouldEscape c encodePath) (Path u) \<longrightarrow>
      encodeItmsUrl hostname u =
        Returns (''https://'' @ hostname @ Path u @ ''?'' @
                 join_query (manifest_query_pairs (Params u))))"
proof (intro conjI impI)
  show "encodeItmsUrl ''gateway.example.com''
     \<lparr>Scheme = ''https'', Host = ''host'', Path = ''/b1/download'', RawQuery = ''token=abc'',
      Params = [(''token'', ''abc'')]\<rparr> =
     Returns ''https://gateway.example.com/b1/download?plist=true&token=abc''"
    by code_simp
next
  assume "plain_hostname hostname \<and> HasPrefix (Path u) ''/''"
  then show "encodeItmsUrl hostname u =
        Returns (''https://'' @ hostname @ escape (Path u) encodePath @ ''?'' @
                 join_query (manifest_query_pairs (Params u)))"
    by (simp add: encodeItmsUrl_eq String_https manifest_query_not_Nil)
next
  assume a: "plain_hostname hostname \<and> HasPrefix (Path u) ''/'' \<and>
    list_all (\<lambda>c. \<not> shouldEscape c encodePath) (Path u)"
  then have "escape (Path u) encodePath = Path u" by (simp add: escape_unreserved)
  with a show "encodeItmsUrl hostname u =
        Returns (''https://'' @ hostname @ Path u @ ''?'' @
                 join_query (manifest_query_pairs (Params u)))"
    by (simp add: encodeItmsUrl_eq String_https manifest_query_not_Nil)
qed

theorem manifest_url_witness:
  "plain_hostname ''gateway.example.com'' \<and>
   HasPrefix (Path (request_URL ''/b 1/download'' [(''token'', ''a&b''), (''plist'', ''no''), (''token'', ''c'')])) ''/'' \<and>
   encodeItmsUrl ''gateway.example.com''
     (request_URL ''/b 1/download'' [(''token'', ''a&b''), (''plist'', ''no''), (''token'', ''c'')]) =
     Returns ''https://gateway.example.com/b%201/download?plist=no&plist=true&token=a%26b'' \<and>
   HasPrefix (Path (request_URL ''/b1/download'' [(''x'', ''1'')])) ''/'' \<and>
   list_all (\<lambda>c. \<not> shouldEscape c encodePath) (Path (request_URL ''/b1/download'' [(''x'', ''1'')])) \<and>
   encodeItmsUrl ''gateway.example.com'' (request_URL ''/b1/download'' [(''x'', ''1'')]) =
     Returns ''https://gateway.example.com/b1/download?plist=true&x=1''"
proof -
  let ?u = "request_URL ''/b 1/download'' [(''token'', ''a&b''), (''plist'', ''no''), (''token'', ''c'')]"
  let ?v = "request_URL ''/b1/download'' [(''x'', ''1'')]"
  have h: "plain_hostname ''gateway.example.com''" by code_simp
  have p: "HasPrefix (Path ?u) ''/''" by code_simp
  have e: "escape (Path ?u) encodePath = ''/b%201/download''" by code_simp
  have q: "join_query (manifest_query_pairs (Params ?u)) = ''plist=no&plist=true&token=a%26b''"
    by code_simp
  have pv: "HasPrefix (Path ?v) ''/''" by code_simp
  have l: "list_all (\<lambda>c. \<not> shouldEscape c encodePath) (Path ?v)" by code_simp
  have n: "Path ?v = ''/b1/download''" by code_simp
  have qv: "join_query (manifest_query_pairs (Params ?v)) = ''plist=true&x=1''" by code_simp
  from manifest_url [of "''gateway.example.com''" ?u] h p
  have "encodeItmsUrl ''gateway.example.com'' ?u =
        Returns (''https://'' @ ''gateway.example.com'' @ escape (Path ?u) encodePath @ ''?'' @
                 join_query (manifest_query_pairs (Params ?u)))"
    by blast
  then have a: "encodeItmsUrl ''gateway.example.com'' ?u =
     Returns ''https://gateway.example.com/b%201/download?plist=no&plist=true&token=a%26b''"
    by (simp add: e q)
  from manifest_url [of "''gateway.example.com''" ?v] h pv l
  have "encodeItmsUrl ''gateway.example.com'' ?v =
        Returns (''https://'' @ ''gateway.example.com'' @ Path ?v @ ''?'' @
                 join_query (manifest_query_pairs (Params ?v)))"
    by blast
  then have b: "encodeItmsUrl ''gateway.example.com'' ?v =
     Returns ''https://gateway.example.com/b1/download?plist=true&x=1''"
    by (simp add: n qv)
  from h p a pv l b show ?thesis by blast
qed

text \<open>
  The claim as stated fails: the path is not always in the result unchanged. For the
  path \<^verbatim>\<open>/b!1/download\<close> the result has \<^verbatim>\<open>/b%211/download\<close>, and the path of the
  inbound URL occurs nowhere in it.
\<close>

theorem escaped_path_counterexample:
  "encodeItmsUrl ''gateway.example.com'' (request_URL ''/b!1/download'' [(''token'', ''abc'')]) =
     Returns ''https://gateway.example.com/b%211/download?plist=true&token=abc'' \<and>
   \<not> Contains ''https://gateway.example.com/b%211/download?plist=true&token=abc''
         (Path (request_URL ''/b!1/download'' [(''token'', ''abc'')]))"
  by code_simp

subsection \<open>Claim C7: the manifest URL does not depend on the order of the query\<close>

text \<open>
  Claim C7, as the code has it. For two inbound URLs with the same path whose query
  parameters are a permutation of one another and agree on the first value of every
  key (as they do when no key is repeated, or when the parameters of one key keep their
  order), and the same host name, \<^verbatim>\<open>encodeItmsUrl\<close> gives the same result, in
  whatever order the range statement visits the entries of the two maps.
\<close>

theorem manifest_url_order_independent:
  assumes "Path u1 = Path u2"
    and "mset (Params u1) = mset (Params u2)"
    and "\<forall>key. first_value u1 key = first_value u2 key"
    and "mset entries1 = mset (Query u1)"
    and "mset entries2 = mset (Query u2)"
  shows "encodeItmsUrl_visiting hostname u1 entries1 = encodeItmsUrl_visiting hostname u2 entries2 \<and>
         encodeItmsUrl hostname u1 = encodeItmsUrl hostname u2"
proof -
  from assms(2) have s: "set (Params u1) = set (Params u2)" by (rule mset_eq_setD)
  have "map_of (Params u1) key = map_of (Params u2) key" for key
  proof -
    have "param_values u1 key = [] \<longleftrightarrow> param_values u2 key = []"
      by (simp add: param_values_Nil_iff s)
    moreover from assms(3) have "first_value u1 key = first_value u2 key" by blast
    ultimately show ?thesis
      by (auto simp: map_of_Params first_value_def split: list.splits)
  qed
  then have "map_of (Params u1) = map_of (Params u2)" by (rule ext)
  moreover from s have "set (map fst (Params u1)) = set (map fst (Params u2))" by simp
  ultimately have q: "manifest_query_pairs (Params u1) = manifest_query_pairs (Params u2)"
    by (rule manifest_query_pairs_cong [rotated])
  show ?thesis
  proof (cases "plain_hostname hostname")
    case True
    show ?thesis
      by (simp add: encodeItmsUrl_def encodeItmsUrl_visiting_eq [OF True] assms(1,4,5) q)
  next
    case False
    then show ?thesis by (simp add: encodeItmsUrl_def encodeItmsUrl_unmodelled)
  qed
qed

theorem manifest_url_order_independent_witness:
  "Path (request_URL ''/b1/download'' [(''token'', ''abc''), (''x'', ''1'')]) =
   Path (request_URL ''/b1/download'' [(''x'', ''1''), (''token'', ''abc'')]) \<and>
   mset (Params (request_URL ''/b1/download'' [(''token'', ''abc''), (''x'', ''1'')])) =
   mset (Params (request_URL ''/b1/download'' [(''x'', ''1''), (''token'', ''abc'')])) \<and>
   encodeItmsUrl_visiting ''gateway.example.com''
     (request_URL ''/b1/download'' [(''token'', ''abc''), (''x'', ''1'')])
     [(''token'', [''abc'']), (''x'', [''1''])] =
   encodeItmsUrl_visiting ''gateway.example.com''
     (request_URL ''/b1/download'' [(''x'', ''1''), (''token'', ''abc'')])
     [(''token'', [''abc'']), (''x'', [''1''])] \<and>
   encodeItmsUrl ''gateway.example.com''
     (request_URL ''/b1/download'' [(''x'', ''1''), (''token'', ''abc'')]) =
   Returns ''https://gateway.example.com/b1/download?plist=true&token=abc&x=1''"
proof -
  let ?u1 = "request_URL ''/b1/download'' [(''token'', ''abc''), (''x'', ''1'')]"
  let ?u2 = "request_URL ''/b1/download'' [(''x'', ''1''), (''token'', ''abc'')]"
  let ?es = "[(''token'', [''abc'']), (''x'', [''1''])]"
  have p: "Path ?u1 = Path ?u2" by (simp add: request_URL_def)
  have m: "mset (Params ?u1) = mset (Params ?u2)" by (simp add: request_URL_def)
  have f: "\<forall>key. first_value ?u1 key = first_value ?u2 key"
    by (simp add: first_value_def param_values_def request_URL_def)
  have q1: "Query ?u1 = ?es" by code_simp
  have q2: "Query ?u2 = [(''x'', [''1'']), (''token'', [''abc''])]" by code_simp
  have e1: "mset ?es = mset (Query ?u1)" by (simp add: q1)
  have e2: "mset ?es = mset (Query ?u2)" by (simp add: q2)
  have v: "encodeItmsUrl ''gateway.example.com'' ?u2 =
           Returns ''https://gateway.example.com/b1/download?plist=true&token=abc&x=1''"
    by code_simp
  from manifest_url_order_independent [OF p m f e1 e2, of "''gateway.example.com''"] p m v
  show ?thesis by simp
qed

text \<open>
  The claim as stated fails: \<^verbatim>\<open>?a=1&a=2\<close> and \<^verbatim>\<open>?a=2&a=1\<close> differ only in the
  order of their parameters, and the builder, which copies the first value of a key,
  gives \<^verbatim>\<open>a=1\<close> for the one and \<^verbatim>\<open>a=2\<close> for the other.
\<close>

theorem repeated_key_order_counterexample:
  "Path (request_URL ''/b1/download'' [(''a'', ''1''), (''a'', ''2'')]) =
   Path (request_URL ''/b1/download'' [(''a'', ''2''), (''a'', ''1'')]) \<and>
   mset (Params (request_URL ''/b1/download'' [(''a'', ''1''), (''a'', ''2'')])) =
   mset (Params (request_URL ''/b1/download'' [(''a'', ''2''), (''a'', ''1'')])) \<and>
   encodeItmsUrl ''gateway.example.com''
     (request_URL ''/b1/download'' [(''a'', ''1''), (''a'', ''2'')]) =
     Returns ''https://gateway.example.com/b1/download?a=1&plist=true'' \<and>
   encodeItmsUrl ''gateway.example.com''
     (request_URL ''/b1/download'' [(''a'', ''2''), (''a'', ''1'')]) =
     Returns ''https://gateway.example.com/b1/download?a=2&plist=true'' \<and>
   encodeItmsUrl ''gateway.example.com''
     (request_URL ''/b1/download'' [(''a'', ''1''), (''a'', ''2'')]) \<noteq>
   encodeItmsUrl ''gateway.example.com''
     (request_URL ''/b1/download'' [(''a'', ''2''), (''a'', ''1'')])"
proof -
  have "encodeItmsUrl ''gateway.example.com''
     (request_URL ''/b1/download'' [(''a'', ''1''), (''a'', ''2'')]) =
     Returns ''https://gateway.example.com/b1/download?a=1&plist=true''"
    by code_simp
  moreover have "encodeItmsUrl ''gateway.example.com''
     (request_URL ''/b1/download'' [(''a'', ''2''), (''a'', ''1'')]) =
     Returns ''https://gateway.example.com/b1/download?a=2&plist=true''"
    by code_simp
  ultimately show ?thesis by (simp add: request_URL_def)
qed

subsection \<open>The binary response\<close>

lemma header_http_Error:
  "header (http_Error new_response msg code) =
     [''Content-Type'' \<mapsto> ''text/plain; charset=utf-8'', ''X-Content-Type-Options'' \<mapsto> ''nosniff'']"
  by (simp add: http_Error_def header_Write WriteHeader_def Header_Set_def new_response_def
        canonical_keys split: option.splits)

lemma returned_Write:
  "returned_status (Returns (Write d (Header_Set k v new_response), calls)) = Some 200"
  "returned_body (Returns (Write d (Header_Set k v new_response), calls)) = Some d"
  "returned_header (Returns (Write d (Header_Set k v new_response), calls)) key =
     (if CanonicalMIMEHeaderKey key = CanonicalMIMEHeaderKey k then Some v else None)"
  by (simp_all add: returned_status_def returned_body_def returned_header_def final_status_Write
        final_status_new_headers final_status_new_response body_Write body_Header_Set
        header_Write)
     (simp_all add: new_response_def Header_Set_def)

lemma binary_response_streams:
  assumes "res = (case handleBinaryResponse cl new_response artifactUrl filename of
                    (rw', calls) \<Rightarrow> Returns (rw', before @ calls))"
    and "StreamArtifact cl artifactUrl (AuthToken cl) = Ok src"
  shows "returned_status res = Some 200"
    and "returned_header res ''content-type'' = Some ''octet/stream''"
    and "returned_header res ''content-disposition'' =
           Some (''attachment; filename='' @ [CHR 0x22] @ filename @ [CHR 0x22])"
    and "returned_body res = Some (concat (chunks src))"
    and "returned_calls res = Some (before @ StreamArtifact_call artifactUrl (AuthToken cl) #
           (case copy_err src of None \<Rightarrow> []
            | Some e \<Rightarrow> [Print (''error writing download of application binary'' @ [newline])]) @
           Close_call #
           (case close_err src of None \<Rightarrow> []
            | Some e \<Rightarrow> [Print (''error. failed to close file handle. could be leaking resources '' @ e)]))"
proof -
  obtain rw' calls where h: "handleBinaryResponse cl new_response artifactUrl filename = (rw', calls)"
    by (cases "handleBinaryResponse cl new_response artifactUrl filename")
  note f = handleBinaryResponse_fetched [OF assms(2) h]
  have res: "res = Returns (rw', before @ calls)" by (simp add: assms(1) h)
  show "returned_status res = Some 200" by (simp add: res returned_status_def f(1))
  show "returned_header res ''content-type'' = Some ''octet/stream''"
    by (simp add: res returned_header_def f(4) canonical_keys)
  show "returned_header res ''content-disposition'' =
           Some (''attachment; filename='' @ [CHR 0x22] @ filename @ [CHR 0x22])"
    by (simp add: res returned_header_def f(4) canonical_keys)
  show "returned_body res = Some (concat (chunks src))"
    by (simp add: res returned_body_def f(3))
  show "returned_calls res = Some (before @ StreamArtifact_call artifactUrl (AuthToken cl) #
           (case copy_err src of None \<Rightarrow> []
            | Some e \<Rightarrow> [Print (''error writing download of application binary'' @ [newline])]) @
           Close_call #
           (case close_err src of None \<Rightarrow> []
            | Some e \<Rightarrow> [Print (''error. failed to close file handle. could be leaking resources '' @ e)]))"
    by (simp add: res returned_calls_def f(5))
qed

lemma binary_response_not_manifest:
  assumes "res = (case handleBinaryResponse cl new_response artifactUrl filename of
                    (rw', calls) \<Rightarrow> Returns (rw', before @ calls))"
  shows "returned_header res ''content-type'' \<noteq> Some ''application/xml''"
proof (cases "StreamArtifact cl artifactUrl (AuthToken cl)")
  case (Ok src)
  from binary_response_streams(2) [OF assms Ok] show ?thesis by simp
next
  case (Err e)
  then show ?thesis
    by (simp add: assms handleBinaryResponse_fetch_error returned_header_def header_http_Error
          canonical_keys)
qed

lemma binary_response_closes_stream:
  assumes "StreamArtifact cl artifactUrl (AuthToken cl) = Ok src"
    and "handleBinaryResponse cl new_response artifactUrl extension = (rw', calls)"
  shows "count_list calls Close_call = 1" and "final_status rw' = 200"
    and "body rw' = concat (chunks src)"
proof -
  note f = handleBinaryResponse_fetched [OF assms]
  show "count_list calls Close_call = 1"
    by (simp add: f(5) split: option.splits)
  show "final_status rw' = 200" by (rule f(1))
  show "body rw' = concat (chunks src)" by (rule f(3))
qed

subsection \<open>The dispatch on the build type and the query\<close>

lemma reaches_dispatchD:
  assumes "reaches_dispatch cl u build token artifactUrl"
  shows "MatchString (Path u)" and "parseToken u = Ok token"
    and "GetBuild cl (Split (Path u) CHR ''/'' ! 1) = (build, None)"
    and "Annotations build (GetTokenConst cl) = Some token"
    and "Annotations build (GetDownloadConst cl) = Some artifactUrl" and "artifactUrl \<noteq> []"
  using assms by (simp_all add: reaches_dispatch_def validateURLPath_iff)

lemma Contains_iff: "Contains s sub \<longleftrightarrow> (\<exists>a b. s = a @ sub @ b)"
proof (induction s)
  case Nil
  show ?case by (auto simp: HasPrefix_iff)
next
  case (Cons c cs)
  show ?case
  proof
    assume "Contains (c # cs) sub"
    then consider "HasPrefix (c # cs) sub" | "Contains cs sub" by auto
    then show "\<exists>a b. c # cs = a @ sub @ b"
    proof cases
      case 1
      then obtain r where "c # cs = [] @ sub @ r" by (auto simp: HasPrefix_iff)
      then show ?thesis by blast
    next
      case 2
      with Cons obtain a b where "cs = a @ sub @ b" by blast
      then have "c # cs = (c # a) @ sub @ b" by simp
      then show ?thesis by blast
    qed
  next
    assume "\<exists>a b. c # cs = a @ sub @ b"
    then obtain a b where ab: "c # cs = a @ sub @ b" by blast
    show "Contains (c # cs) sub"
    proof (cases a)
      case Nil
      with ab have "HasPrefix (c # cs) sub" by (auto simp: HasPrefix_iff)
      then show ?thesis by simp
    next
      case (Cons x a')
      with ab have "cs = a' @ sub @ b" by simp
      then have "Contains cs sub" using Cons.IH by blast
      then show ?thesis by simp
    qed
  qed
qed

lemma Contains_in_message: "Contains s sub \<Longrightarrow> Contains (msg @ s @ rest) sub"
proof -
  assume "Contains s sub"
  then obtain a b where "s = a @ sub @ b" by (auto simp: Contains_iff)
  then have "msg @ s @ rest = (msg @ a) @ sub @ (b @ rest)" by simp
  then show ?thesis unfolding Contains_iff by blast
qed

lemma isArtifactRequest_iff: "isArtifactRequest u \<longleftrightarrow> first_value u ''artifact'' = ''true''"
  by (simp add: isArtifactRequest_def Get_Query)

lemma isPlistRequest_iff: "isPlistRequest u \<longleftrightarrow> first_value u ''plist'' = ''true''"
  by (simp add: isPlistRequest_def Get_Query)

lemma handler_android:
  assumes "reaches_dispatch cl u build token artifactUrl"
    and "GetBuildType cl build = Ok ''android''"
  shows "handler cl u =
     (case handleBinaryResponse cl new_response artifactUrl (Name build @ ''.apk'') of
        (rw', calls) \<Rightarrow>
          Returns (rw', [GetBuild_call (Split (Path u) CHR ''/'' ! 1), GetBuildType_call] @ calls))"
  by (simp add: handler_dispatch [OF reaches_dispatchD [OF assms(1)]] assms(2))

lemma handler_ios_artifact:
  assumes "reaches_dispatch cl u build token artifactUrl"
    and "GetBuildType cl build = Ok ''ios''" and "first_value u ''artifact'' = ''true''"
  shows "handler cl u =
     (case handleBinaryResponse cl new_response artifactUrl (Name build @ ''.ipa'') of
        (rw', calls) \<Rightarrow>
          Returns (rw', [GetBuild_call (Split (Path u) CHR ''/'' ! 1), GetBuildType_call] @ calls))"
  by (simp add: handler_dispatch [OF reaches_dispatchD [OF assms(1)]] assms(2,3)
        isArtifactRequest_iff)

lemma handler_ios_plist:
  assumes "reaches_dispatch cl u build token artifactUrl"
    and "GetBuildType cl build = Ok ''ios''" and "first_value u ''artifact'' \<noteq> ''true''"
    and "first_value u ''plist'' = ''true''"
  shows "handler cl u =
     Returns (Write (ProduceXML cl (GenerateArtifactUrl cl (Name build) token True) (Name build))
                (Header_Set ''content-type'' ''application/xml'' new_response),
              [GetBuild_call (Split (Path u) CHR ''/'' ! 1), GetBuildType_call])"
  by (simp add: handler_dispatch [OF reaches_dispatchD [OF assms(1)]] assms(2,3,4)
        isArtifactRequest_iff isPlistRequest_iff)

lemma handler_ios_landing:
  assumes "reaches_dispatch cl u build token artifactUrl"
    and "GetBuildType cl build = Ok ''ios''" and "first_value u ''artifact'' \<noteq> ''true''"
    and "first_value u ''plist'' \<noteq> ''true''"
    and "encodeItmsUrl (OPERATOR_HOSTNAME cl) u = Returns itmsUrl"
  shows "handler cl u =
     Returns (Write (ProduceHTML cl itmsUrl) (Header_Set ''content-type'' ''text/html'' new_response),
              [GetBuild_call (Split (Path u) CHR ''/'' ! 1), GetBuildType_call])"
  by (simp add: handler_dispatch [OF reaches_dispatchD [OF assms(1)]] assms(2,3,4,5)
        isArtifactRequest_iff isPlistRequest_iff)

lemma handler_unknown_type:
  assumes "reaches_dispatch cl u build token artifactUrl"
    and "GetBuildType cl build = Err e \<or>
         (GetBuildType cl build = Ok t \<and> t \<noteq> ''android'' \<and> t \<noteq> ''ios'')"
  shows "handler cl u =
           Returns (http_Error new_response
                      ((case GetBuildType cl build of
                          Err _ \<Rightarrow> ''no build type found for build ''
                        | Ok _ \<Rightarrow> ''invalid build type found for build '') @
                       Sprint_Build cl build) 400,
                    [GetBuild_call (Split (Path u) CHR ''/'' ! 1), GetBuildType_call])"
  using assms(2)
proof
  assume "GetBuildType cl build = Err e"
  then show ?thesis
    by (simp add: handler_dispatch [OF reaches_dispatchD [OF assms(1)]])
next
  assume "GetBuildType cl build = Ok t \<and> t \<noteq> ''android'' \<and> t \<noteq> ''ios''"
  then show ?thesis
    by (simp add: handler_dispatch [OF reaches_dispatchD [OF assms(1)]])
qed

subsection \<open>The example clients\<close>

lemma example_reaches_dispatch:
  assumes "''token'' \<notin> fst ` set extra"
  shows "reaches_dispatch (example_clients build42 platform fetched)
           (request_URL ''/build42/download'' ((''token'', ''right'') # extra))
           build42 ''right'' ''http://store/a.bin''"
proof -
  let ?u = "request_URL ''/build42/download'' ((''token'', ''right'') # extra)"
  have p: "Path ?u = ''/build42/download''" by (simp add: request_URL_def)
  have sp: "Split ''/build42/download'' CHR ''/'' ! 1 = ''build42''" by code_simp
  from assms have "filter (\<lambda>p. fst p = ''token'') extra = []"
    by (fastforce simp: filter_empty_conv image_iff)
  then have t: "param_values ?u ''token'' = [''right'']"
    by (simp add: param_values_def request_URL_def)
  show ?thesis
    unfolding reaches_dispatch_def p sp
    by (simp add: validateURLPath_iff p newline_def parseToken_param_values t
          example_clients_def build42_def)
qed

lemma example_clients_simps:
  "GetBuildType (example_clients b platform fetched) b' = platform"
  "StreamArtifact (example_clients b platform fetched) url credential = fetched"
  "OPERATOR_HOSTNAME (example_clients b platform fetched) = ''gateway.example.com''"
  "AuthToken (example_clients b platform fetched) = ''service-credential''"
  "Sprint_Build (example_clients b platform fetched) b' = ''&Build{Name:'' @ Name b' @ ''}''"
  by (simp_all add: example_clients_def)

lemma example_values:
  "Name build42 = ''build42''"
  "concat (chunks upstream_bytes) = ''PKbytes''"
  "plain_hostname ''gateway.example.com''"
  by code_simp+

subsection \<open>Claim C4: the dispatch table\<close>

text \<open>
  Claim C4. For every request that passes the validators and the token check and whose
  build has a non-empty artifact location, the handler dispatches on the build type
  and, for ios, on the query, the first case that applies: android, whatever the query,
  goes to the binary response with the file name \<^verbatim>\<open><buildName>.apk\<close>; ios with
  \<^verbatim>\<open>artifact=true\<close> goes to the binary response with \<^verbatim>\<open><buildName>.ipa\<close>; ios with
  \<^verbatim>\<open>plist=true\<close> gets the manifest document with content type \<^verbatim>\<open>application/xml\<close>;
  ios otherwise gets the landing page of the manifest URL with content type
  \<^verbatim>\<open>text/html\<close>; no build type or another build type gets 400 with a message that
  ends in the rendering of the build (and so names the build when that rendering
  holds its name). When the fetch succeeds the binary response has status 200, content
  type \<^verbatim>\<open>octet/stream\<close>, content disposition \<^verbatim>\<open>attachment; filename="..."\<close> with the
  file name, and the fetched bytes as body.
\<close>

theorem dispatch_table:
  assumes "reaches_dispatch cl u build token artifactUrl"
  shows
   "(GetBuildType cl build = Ok ''android'' \<longrightarrow>
       handler cl u =
         (case handleBinaryResponse cl new_response artifactUrl (Name build @ ''.apk'') of
            (rw', calls) \<Rightarrow>
              Returns (rw', [GetBuild_call (Split (Path u) CHR ''/'' ! 1), GetBuildType_call] @ calls)) \<and>
       (StreamArtifact cl artifactUrl (AuthToken cl) = Ok src \<longrightarrow>
          returned_status (handler cl u) = Some 200 \<and>
          returned_header (handler cl u) ''content-type'' = Some ''octet/stream'' \<and>
          returned_header (handler cl u) ''content-disposition'' =
            Some (''attachment; filename='' @ [CHR 0x22] @ Name build @ ''.apk'' @ [CHR 0x22]) \<and>
          returned_body (handler cl u) = Some (concat (chunks src)))) \<and>
    (GetBuildType cl build = Ok ''ios'' \<and> first_value u ''artifact'' = ''true'' \<longrightarrow>
       handler cl u =
         (case handleBinaryResponse cl new_response artifactUrl (Name build @ ''.ipa'') of
            (rw', calls) \<Rightarrow>
              Returns (rw', [GetBuild_call (Split (Path u) CHR ''/'' ! 1), GetBuildType_call] @ calls)) \<and>
       (StreamArtifact cl artifactUrl (AuthToken cl) = Ok src \<longrightarrow>
          returned_status (handler cl u) = Some 200 \<and>
          returned_header (handler cl u) ''content-type'' = Some ''octet/stream'' \<and>
          returned_header (handler cl u) ''content-disposition'' =
            Some (''attachment; filename='' @ [CHR 0x22] @ Name build @ ''.ipa'' @ [CHR 0x22]) \<and>
          returned_body (handler cl u) = Some (concat (chunks src)))) \<and>
    (GetBuildType cl build = Ok ''ios'' \<and> first_value u ''artifact'' \<noteq> ''true'' \<and>
     first_value u ''plist'' = ''true'' \<longrightarrow>
       returned_status (handler cl u) = Some 200 \<and>
       returned_header (handler cl u) ''content-type'' = Some ''application/xml'' \<and>
       returned_body (handler cl u) =
         Some (ProduceXML cl (GenerateArtifactUrl cl (Name build) token True) (Name build))) \<and>
    (GetBuildType cl build = Ok ''ios'' \<and> first_value u ''artifact'' \<noteq> ''true'' \<and>
     first_value u ''plist'' \<noteq> ''true'' \<and> plain_hostname (OPERATOR_HOSTNAME cl) \<longrightarrow>
       returned_status (handler cl u) = Some 200 \<and>
       returned_header (handler cl u) ''content-type'' = Some ''text/html'' \<and>
       (\<exists>itmsUrl. encodeItmsUrl (OPERATOR_HOSTNAME cl) u = Returns itmsUrl \<and>
                  returned_body (handler cl u) = Some (ProduceHTML cl itmsUrl))) \<and>
    (GetBuildType cl build = Err e \<or>
     (GetBuildType cl build = Ok t \<and> t \<noteq> ''android'' \<and> t \<noteq> ''ios'') \<longrightarrow>
       returned_status (handler cl u) = Some 400 \<and>
       returned_calls (handler cl u) =
         Some [GetBuild_call (Split (Path u) CHR ''/'' ! 1), GetBuildType_call] \<and>
       (\<exists>msg. returned_body (handler cl u) = Some (msg @ Sprint_Build cl build @ [newline]) \<and>
              (Contains (Sprint_Build cl build) (Name build) \<longrightarrow>
                 Contains (msg @ Sprint_Build cl build @ [newline]) (Name build))))"
proof (intro conjI impI)
  assume a: "GetBuildType cl build = Ok ''android''"
  show h: "handler cl u =
         (case handleBinaryResponse cl new_response artifactUrl (Name build @ ''.apk'') of
            (rw', calls) \<Rightarrow>
              Returns (rw', [GetBuild_call (Split (Path u) CHR ''/'' ! 1), GetBuildType_call] @ calls))"
    by (rule handler_android [OF assms a])
  assume s: "StreamArtifact cl artifactUrl (AuthToken cl) = Ok src"
  note b = binary_response_streams [OF h s]
  show "returned_status (handler cl u) = Some 200" by (rule b(1))
  show "returned_header (handler cl u) ''content-type'' = Some ''octet/stream''" by (rule b(2))
  show "returned_header (handler cl u) ''content-disposition'' =
            Some (''attachment; filename='' @ [CHR 0x22] @ Name build @ ''.apk'' @ [CHR 0x22])"
    using b(3) by simp
  show "returned_body (handler cl u) = Some (concat (chunks src))" by (rule b(4))
next
  assume a: "GetBuildType cl build = Ok ''ios'' \<and> first_value u ''artifact'' = ''true''"
  show h: "handler cl u =
         (case handleBinaryResponse cl new_response artifactUrl (Name build @ ''.ipa'') of
            (rw', calls) \<Rightarrow>
              Returns (rw', [GetBuild_call (Split (Path u) CHR ''/'' ! 1), GetBuildType_call] @ calls))"
    using a by (intro handler_ios_artifact [OF assms]) simp_all
  assume s: "StreamArtifact cl artifactUrl (AuthToken cl) = Ok src"
  note b = binary_response_streams [OF h s]
  show "returned_status (handler cl u) = Some 200" by (rule b(1))
  show "returned_header (handler cl u) ''content-type'' = Some ''octet/stream''" by (rule b(2))
  show "returned_header (handler cl u) ''content-disposition'' =
            Some (''attachment; filename='' @ [CHR 0x22] @ Name build @ ''.ipa'' @ [CHR 0x22])"
    using b(3) by simp
  show "returned_body (handler cl u) = Some (concat (chunks src))" by (rule b(4))
next
  assume a: "GetBuildType cl build = Ok ''ios'' \<and> first_value u ''artifact'' \<noteq> ''true'' \<and>
     first_value u ''plist'' = ''true''"
  then have h: "handler cl u =
     Returns (Write (ProduceXML cl (GenerateArtifactUrl cl (Name build) token True) (Name build))
                (Header_Set ''content-type'' ''application/xml'' new_response),
              [GetBuild_call (Split (Path u) CHR ''/'' ! 1), GetBuildType_call])"
    by (intro handler_ios_plist [OF assms]) simp_all
  show "returned_status (handler cl u) = Some 200" by (simp add: h returned_Write)
  show "returned_header (handler cl u) ''content-type'' = Some ''application/xml''"
    by (simp add: h returned_Write)
  show "returned_body (handler cl u) =
         Some (ProduceXML cl (GenerateArtifactUrl cl (Name build) token True) (Name build))"
    by (simp add: h returned_Write)
next
  assume a: "GetBuildType cl build = Ok ''ios'' \<and> first_value u ''artifact'' \<noteq> ''true'' \<and>
     first_value u ''plist'' \<noteq> ''true'' \<and> plain_hostname (OPERATOR_HOSTNAME cl)"
  then obtain itmsUrl where i: "encodeItmsUrl (OPERATOR_HOSTNAME cl) u = Returns itmsUrl"
    by (auto simp: encodeItmsUrl_eq)
  from a have h: "handler cl u =
     Returns (Write (ProduceHTML cl itmsUrl) (Header_Set ''content-type'' ''text/html'' new_response),
              [GetBuild_call (Split (Path u) CHR ''/'' ! 1), GetBuildType_call])"
    by (intro handler_ios_landing [OF assms _ _ _ i]) simp_all
  show "returned_status (handler cl u) = Some 200" by (simp add: h returned_Write)
  show "returned_header (handler cl u) ''content-type'' = Some ''text/html''"
    by (simp add: h returned_Write)
  show "\<exists>itmsUrl. encodeItmsUrl (OPERATOR_HOSTNAME cl) u = Returns itmsUrl \<and>
                  returned_body (handler cl u) = Some (ProduceHTML cl itmsUrl)"
    using i by (simp add: h returned_Write)
next
  assume a: "GetBuildType cl build = Err e \<or>
     (GetBuildType cl build = Ok t \<and> t \<noteq> ''android'' \<and> t \<noteq> ''ios'')"
  note h = handler_unknown_type [OF assms a]
  show "returned_status (handler cl u) = Some 400" by (simp add: h returned_http_Error)
  show "returned_calls (handler cl u) =
         Some [GetBuild_call (Split (Path u) CHR ''/'' ! 1), GetBuildType_call]"
    by (simp add: h returned_http_Error)
  show "\<exists>msg. returned_body (handler cl u) = Some (msg @ Sprint_Build cl build @ [newline]) \<and>
              (Contains (Sprint_Build cl build) (Name build) \<longrightarrow>
                 Contains (msg @ Sprint_Build cl build @ [newline]) (Name build))"
    by (auto simp: h returned_http_Error intro: Contains_in_message)
qed

theorem dispatch_table_witness:
  "reaches_dispatch (example_clients build42 (Ok ''android'') (Ok upstream_bytes))
     (request_URL ''/build42/download'' [(''token'', ''right'')])
     build42 ''right'' ''http://store/a.bin'' \<and>
   returned_status (handler (example_clients build42 (Ok ''android'') (Ok upstream_bytes))
     (request_URL ''/build42/download'' [(''token'', ''right'')])) = Some 200 \<and>
   returned_header (handler (example_clients build42 (Ok ''android'') (Ok upstream_bytes))
     (request_URL ''/build42/download'' [(''token'', ''right'')])) ''content-disposition'' =
     Some (''attachment; filename='' @ [CHR 0x22] @ ''build42.apk'' @ [CHR 0x22]) \<and>
   returned_body (handler (example_clients build42 (Ok ''android'') (Ok upstream_bytes))
     (request_URL ''/build42/download'' [(''token'', ''right'')])) = Some ''PKbytes'' \<and>
   returned_header (handler (example_clients build42 (Ok ''ios'') (Ok upstream_bytes))
     (request_URL ''/build42/download'' [(''token'', ''right''), (''artifact'', ''true'')]))
     ''content-disposition'' =
     Some (''attachment; filename='' @ [CHR 0x22] @ ''build42.ipa'' @ [CHR 0x22]) \<and>
   returned_header (handler (example_clients build42 (Ok ''ios'') (Ok upstream_bytes))
     (request_URL ''/build42/download'' [(''token'', ''right''), (''plist'', ''true'')]))
     ''content-type'' = Some ''application/xml'' \<and>
   returned_header (handler (example_clients build42 (Ok ''ios'') (Ok upstream_bytes))
     (request_URL ''/build42/download'' [(''token'', ''right'')]))
     ''content-type'' = Some ''text/html'' \<and>
   returned_status (handler (example_clients build42 (Ok ''windows'') (Ok upstream_bytes))
     (request_URL ''/build42/download'' [(''token'', ''right'')])) = Some 400"
proof -
  let ?android = "example_clients build42 (Ok ''android'') (Ok upstream_bytes)"
  let ?ios = "example_clients build42 (Ok ''ios'') (Ok upstream_bytes)"
  let ?windows = "example_clients build42 (Ok ''windows'') (Ok upstream_bytes)"
  let ?plain = "request_URL ''/build42/download'' [(''token'', ''right'')]"
  let ?artifact = "request_URL ''/build42/download'' [(''token'', ''right''), (''artifact'', ''true'')]"
  let ?plist = "request_URL ''/build42/download'' [(''token'', ''right''), (''plist'', ''true'')]"
  have r1: "reaches_dispatch ?android ?plain build42 ''right'' ''http://store/a.bin''"
    by (rule example_reaches_dispatch) simp
  have r2: "reaches_dispatch ?ios ?artifact build42 ''right'' ''http://store/a.bin''"
    by (rule example_reaches_dispatch) simp
  have r3: "reaches_dispatch ?ios ?plist build42 ''right'' ''http://store/a.bin''"
    by (rule example_reaches_dispatch) simp
  have r4: "reaches_dispatch ?ios ?plain build42 ''right'' ''http://store/a.bin''"
    by (rule example_reaches_dispatch) simp
  have r5: "reaches_dispatch ?windows ?plain build42 ''right'' ''http://store/a.bin''"
    by (rule example_reaches_dispatch) simp
  have f2: "first_value ?artifact ''artifact'' = ''true''"
    by (simp add: first_value_def param_values_def request_URL_def)
  have f3: "first_value ?plist ''artifact'' \<noteq> ''true''" "first_value ?plist ''plist'' = ''true''"
    by (simp_all add: first_value_def param_values_def request_URL_def)
  have f4: "first_value ?plain ''artifact'' \<noteq> ''true''" "first_value ?plain ''plist'' \<noteq> ''true''"
    by (simp_all add: first_value_def param_values_def request_URL_def)
  have ga: "GetBuildType ?android build42 = Ok ''android''"
    and gi: "GetBuildType ?ios build42 = Ok ''ios''"
    and gw: "GetBuildType ?windows build42 = Ok ''windows''"
    and sa: "StreamArtifact ?android ''http://store/a.bin'' (AuthToken ?android) = Ok upstream_bytes"
    and si: "StreamArtifact ?ios ''http://store/a.bin'' (AuthToken ?ios) = Ok upstream_bytes"
    and hi: "plain_hostname (OPERATOR_HOSTNAME ?ios)"
    by (simp_all add: example_clients_simps example_values)
  from dispatch_table [OF r1, where src = upstream_bytes and e = "[]" and t = "[]"] ga sa
  have a0: "returned_status (handler ?android ?plain) = Some 200"
    "returned_header (handler ?android ?plain) ''content-disposition'' =
       Some (''attachment; filename='' @ [CHR 0x22] @ Name build42 @ ''.apk'' @ [CHR 0x22])"
    "returned_body (handler ?android ?plain) = Some (concat (chunks upstream_bytes))"
    by blast+
  then have a: "returned_status (handler ?android ?plain) = Some 200"
    "returned_header (handler ?android ?plain) ''content-disposition'' =
       Some (''attachment; filename='' @ [CHR 0x22] @ ''build42.apk'' @ [CHR 0x22])"
    "returned_body (handler ?android ?plain) = Some ''PKbytes''"
    by (simp_all add: example_values)
  from dispatch_table [OF r2, where src = upstream_bytes and e = "[]" and t = "[]"] gi si f2
  have "returned_header (handler ?ios ?artifact) ''content-disposition'' =
       Some (''attachment; filename='' @ [CHR 0x22] @ Name build42 @ ''.ipa'' @ [CHR 0x22])"
    by blast
  then have b: "returned_header (handler ?ios ?artifact) ''content-disposition'' =
       Some (''attachment; filename='' @ [CHR 0x22] @ ''build42.ipa'' @ [CHR 0x22])"
    by (simp add: example_values)
  from dispatch_table [OF r3, where src = upstream_bytes and e = "[]" and t = "[]"] gi f3
  have c: "returned_header (handler ?ios ?plist) ''content-type'' = Some ''application/xml''"
    by blast
  from dispatch_table [OF r4, where src = upstream_bytes and e = "[]" and t = "[]"] gi f4 hi
  have d: "returned_header (handler ?ios ?plain) ''content-type'' = Some ''text/html''"
    by blast
  have "''windows'' \<noteq> ''android''" "''windows'' \<noteq> ''ios''" by simp_all
  with dispatch_table [OF r5, where src = upstream_bytes and e = "[]" and t = "''windows''"] gw
  have e: "returned_status (handler ?windows ?plain) = Some 400"
    by blast
  from r1 a b c d e show ?thesis by blast
qed

subsection \<open>Claim C10: the artifact intent comes first\<close>

text \<open>
  Claim C10. For every authorized request for an ios build, a query whose first
  \<^verbatim>\<open>artifact\<close> value is \<^verbatim>\<open>true\<close> goes to the binary response, whatever its \<^verbatim>\<open>plist\<close>
  value: the artifact is fetched and, when the fetch succeeds, streamed with status 200,
  content type \<^verbatim>\<open>octet/stream\<close>, the file name \<^verbatim>\<open><buildName>.ipa\<close> and the fetched bytes
  as body, the stream closed after it (when the fetch fails the answer is 500); the
  response is never the manifest document. The two intents are active exactly when the
  first value of their parameter is the string \<^verbatim>\<open>true\<close>, compared byte for byte: with
  neither active the landing page is sent, with only \<^verbatim>\<open>plist\<close> active the manifest,
  and neither of the two fetches the artifact.
\<close>

theorem artifact_intent_first:
  assumes "reaches_dispatch cl u build token artifactUrl"
    and "GetBuildType cl build = Ok ''ios''"
  shows
   "(first_value u ''artifact'' = ''true'' \<longrightarrow>
       handler cl u =
         (case handleBinaryResponse cl new_response artifactUrl (Name build @ ''.ipa'') of
            (rw', calls) \<Rightarrow>
              Returns (rw', [GetBuild_call (Split (Path u) CHR ''/'' ! 1), GetBuildType_call] @ calls)) \<and>
       returned_header (handler cl u) ''content-type'' \<noteq> Some ''application/xml'' \<and>
       (StreamArtifact cl artifactUrl (AuthToken cl) = Ok src \<longrightarrow>
          returned_status (handler cl u) = Some 200 \<and>
          returned_header (handler cl u) ''content-type'' = Some ''octet/stream'' \<and>
          returned_header (handler cl u) ''content-disposition'' =
            Some (''attachment; filename='' @ [CHR 0x22] @ Name build @ ''.ipa'' @ [CHR 0x22]) \<and>
          returned_body (handler cl u) = Some (concat (chunks src)) \<and>
          returned_calls (handler cl u) =
            Some ([GetBuild_call (Split (Path u) CHR ''/'' ! 1), GetBuildType_call] @
              StreamArtifact_call artifactUrl (AuthToken cl) #
              (case copy_err src of None \<Rightarrow> []
               | Some e \<Rightarrow> [Print (''error writing download of application binary'' @ [newline])]) @
              Close_call #
              (case close_err src of None \<Rightarrow> []
               | Some e \<Rightarrow>
                   [Print (''error. failed to close file handle. could be leaking resources '' @ e)]))) \<and>
       (StreamArtifact cl artifactUrl (AuthToken cl) = Err err \<longrightarrow>
          returned_status (handler cl u) = Some 500 \<and>
          returned_body (handler cl u) = Some (''error when streaming atifact'' @ [newline]) \<and>
          returned_calls (handler cl u) =
            Some [GetBuild_call (Split (Path u) CHR ''/'' ! 1), GetBuildType_call,
                  StreamArtifact_call artifactUrl (AuthToken cl)])) \<and>
    (isArtifactRequest u \<longleftrightarrow> first_value u ''artifact'' = ''true'') \<and>
    (isPlistRequest u \<longleftrightarrow> first_value u ''plist'' = ''true'') \<and>
    (first_value u ''artifact'' \<noteq> ''true'' \<and> first_value u ''plist'' = ''true'' \<longrightarrow>
       returned_header (handler cl u) ''content-type'' = Some ''application/xml'' \<and>
       returned_body (handler cl u) =
         Some (ProduceXML cl (GenerateArtifactUrl cl (Name build) token True) (Name build)) \<and>
       returned_calls (handler cl u) =
         Some [GetBuild_call (Split (Path u) CHR ''/'' ! 1), GetBuildType_call]) \<and>
    (first_value u ''artifact'' \<noteq> ''true'' \<and> first_value u ''plist'' \<noteq> ''true'' \<and>
     plain_hostname (OPERATOR_HOSTNAME cl) \<longrightarrow>
       returned_header (handler cl u) ''content-type'' = Some ''text/html'' \<and>
       (\<exists>itmsUrl. encodeItmsUrl (OPERATOR_HOSTNAME cl) u = Returns itmsUrl \<and>
                  returned_body (handler cl u) = Some (ProduceHTML cl itmsUrl)) \<and>
       returned_calls (handler cl u) =
         Some [GetBuild_call (Split (Path u) CHR ''/'' ! 1), GetBuildType_call])"
proof (intro conjI impI)
  assume a: "first_value u ''artifact'' = ''true''"
  show h: "handler cl u =
         (case handleBinaryResponse cl new_response artifactUrl (Name build @ ''.ipa'') of
            (rw', calls) \<Rightarrow>
              Returns (rw', [GetBuild_call (Split (Path u) CHR ''/'' ! 1), GetBuildType_call] @ calls))"
    by (rule handler_ios_artifact [OF assms a])
  show "returned_header (handler cl u) ''content-type'' \<noteq> Some ''application/xml''"
    by (rule binary_response_not_manifest [OF h])
  {
    assume s: "StreamArtifact cl artifactUrl (AuthToken cl) = Ok src"
    note b = binary_response_streams [OF h s]
    show "returned_status (handler cl u) = Some 200" by (rule b(1))
    show "returned_header (handler cl u) ''content-type'' = Some ''octet/stream''" by (rule b(2))
    show "returned_header (handler cl u) ''content-disposition'' =
            Some (''attachment; filename='' @ [CHR 0x22] @ Name build @ ''.ipa'' @ [CHR 0x22])"
      using b(3) by simp
    show "returned_body (handler cl u) = Some (concat (chunks src))" by (rule b(4))
    show "returned_calls (handler cl u) =
            Some ([GetBuild_call (Split (Path u) CHR ''/'' ! 1), GetBuildType_call] @
              StreamArtifact_call artifactUrl (AuthToken cl) #
              (case copy_err src of None \<Rightarrow> []
               | Some e \<Rightarrow> [Print (''error writing download of application binary'' @ [newline])]) @
              Close_call #
              (case close_err src of None \<Rightarrow> []
               | Some e \<Rightarrow>
                   [Print (''error. failed to close file handle. could be leaking resources '' @ e)]))"
      by (rule b(5))
  }
  {
    assume f: "StreamArtifact cl artifactUrl (AuthToken cl) = Err err"
    have r: "handler cl u =
       Returns (http_Error new_response ''error when streaming atifact'' 500,
                [GetBuild_call (Split (Path u) CHR ''/'' ! 1), GetBuildType_call,
                 StreamArtifact_call artifactUrl (AuthToken cl)])"
      by (simp add: h handleBinaryResponse_fetch_error [OF f])
    show "returned_status (handler cl u) = Some 500" by (simp add: r returned_http_Error)
    show "returned_body (handler cl u) = Some (''error when streaming atifact'' @ [newline])"
      by (simp add: r returned_http_Error)
    show "returned_calls (handler cl u) =
            Some [GetBuild_call (Split (Path u) CHR ''/'' ! 1), GetBuildType_call,
                  StreamArtifact_call artifactUrl (AuthToken cl)]"
      by (simp add: r returned_http_Error)
  }
next
  show "isArtifactRequest u \<longleftrightarrow> first_value u ''artifact'' = ''true''"
    by (rule isArtifactRequest_iff)
  show "isPlistRequest u \<longleftrightarrow> first_value u ''plist'' = ''true''"
    by (rule isPlistRequest_iff)
next
  assume "first_value u ''artifact'' \<noteq> ''true'' \<and> first_value u ''plist'' = ''true''"
  then have h: "handler cl u =
     Returns (Write (ProduceXML cl (GenerateArtifactUrl cl (Name build) token True) (Name build))
                (Header_Set ''content-type'' ''application/xml'' new_response),
              [GetBuild_call (Split (Path u) CHR ''/'' ! 1), GetBuildType_call])"
    by (intro handler_ios_plist [OF assms]) simp_all
  show "returned_header (handler cl u) ''content-type'' = Some ''application/xml''"
    by (simp add: h returned_Write)
  show "returned_body (handler cl u) =
         Some (ProduceXML cl (GenerateArtifactUrl cl (Name build) token True) (Name build))"
    by (simp add: h returned_Write)
  show "returned_calls (handler cl u) =
         Some [GetBuild_call (Split (Path u) CHR ''/'' ! 1), GetBuildType_call]"
    by (simp add: h returned_http_Error)
next
  assume a: "first_value u ''artifact'' \<noteq> ''true'' \<and> first_value u ''plist'' \<noteq> ''true'' \<and>
     plain_hostname (OPERATOR_HOSTNAME cl)"
  then obtain itmsUrl where i: "encodeItmsUrl (OPERATOR_HOSTNAME cl) u = Returns itmsUrl"
    by (auto simp: encodeItmsUrl_eq)
  from a have h: "handler cl u =
     Returns (Write (ProduceHTML cl itmsUrl) (Header_Set ''content-type'' ''text/html'' new_response),
              [GetBuild_call (Split (Path u) CHR ''/'' ! 1), GetBuildType_call])"
    by (intro handler_ios_landing [OF assms _ _ i]) simp_all
  show "returned_header (handler cl u) ''content-type'' = Some ''text/html''"
    by (simp add: h returned_Write)
  show "\<exists>itmsUrl. encodeItmsUrl (OPERATOR_HOSTNAME cl) u = Returns itmsUrl \<and>
                  returned_body (handler cl u) = Some (ProduceHTML cl itmsUrl)"
    using i by (simp add: h returned_Write)
  show "returned_calls (handler cl u) =
         Some [GetBuild_call (Split (Path u) CHR ''/'' ! 1), GetBuildType_call]"
    by (simp add: h returned_http_Error)
qed

theorem artifact_intent_first_witness:
  "reaches_dispatch (example_clients build42 (Ok ''ios'') (Ok upstream_bytes))
     (request_URL ''/build42/download''
        [(''token'', ''right''), (''plist'', ''true''), (''artifact'', ''true'')])
     build42 ''right'' ''http://store/a.bin'' \<and>
   first_value (request_URL ''/build42/download''
        [(''token'', ''right''), (''plist'', ''true''), (''artifact'', ''true'')]) ''artifact'' = ''true'' \<and>
   first_value (request_URL ''/build42/download''
        [(''token'', ''right''), (''plist'', ''true''), (''artifact'', ''true'')]) ''plist'' = ''true'' \<and>
   returned_header (handler (example_clients build42 (Ok ''ios'') (Ok upstream_bytes))
     (request_URL ''/build42/download''
        [(''token'', ''right''), (''plist'', ''true''), (''artifact'', ''true'')]))
     ''content-type'' = Some ''octet/stream'' \<and>
   returned_body (handler (example_clients build42 (Ok ''ios'') (Ok upstream_bytes))
     (request_URL ''/build42/download''
        [(''token'', ''right''), (''plist'', ''true''), (''artifact'', ''true'')])) =
     Some ''PKbytes'' \<and>
   returned_calls (handler (example_clients build42 (Ok ''ios'') (Ok upstream_bytes))
     (request_URL ''/build42/download''
        [(''token'', ''right''), (''plist'', ''true''), (''artifact'', ''true'')])) =
     Some [GetBuild_call ''build42'', GetBuildType_call,
           StreamArtifact_call ''http://store/a.bin'' ''service-credential'', Close_call] \<and>
   returned_status (handler (example_clients build42 (Ok ''ios'') (Err ''connection refused''))
     (request_URL ''/build42/download''
        [(''token'', ''right''), (''plist'', ''true''), (''artifact'', ''true'')])) = Some 500 \<and>
   returned_header (handler (example_clients build42 (Ok ''ios'') (Ok upstream_bytes))
     (request_URL ''/build42/download''
        [(''token'', ''right''), (''plist'', ''True''), (''artifact'', ''TRUE'')]))
     ''content-type'' = Some ''text/html'' \<and>
   returned_header (handler (example_clients build42 (Ok ''ios'') (Ok upstream_bytes))
     (request_URL ''/build42/download''
        [(''token'', ''right''), (''plist'', ''true''), (''artifact'', ''1'')]))
     ''content-type'' = Some ''application/xml''"
proof -
  let ?ios = "example_clients build42 (Ok ''ios'') (Ok upstream_bytes)"
  let ?down = "example_clients build42 (Ok ''ios'') (Err ''connection refused'')"
  let ?both = "request_URL ''/build42/download''
        [(''token'', ''right''), (''plist'', ''true''), (''artifact'', ''true'')]"
  let ?upper = "request_URL ''/build42/download''
        [(''token'', ''right''), (''plist'', ''True''), (''artifact'', ''TRUE'')]"
  let ?one = "request_URL ''/build42/download''
        [(''token'', ''right''), (''plist'', ''true''), (''artifact'', ''1'')]"
  have t: "GetBuildType ?ios build42 = Ok ''ios''" by (simp add: example_clients_simps)
  have td: "GetBuildType ?down build42 = Ok ''ios''" by (simp add: example_clients_simps)
  have s: "StreamArtifact ?ios ''http://store/a.bin'' (AuthToken ?ios) = Ok upstream_bytes"
    by (simp add: example_clients_simps)
  have sd: "StreamArtifact ?down ''http://store/a.bin'' (AuthToken ?down) = Err ''connection refused''"
    by (simp add: example_clients_simps)
  have r1: "reaches_dispatch ?ios ?both build42 ''right'' ''http://store/a.bin''"
    by (rule example_reaches_dispatch) simp
  have r1d: "reaches_dispatch ?down ?both build42 ''right'' ''http://store/a.bin''"
    by (rule example_reaches_dispatch) simp
  have r2: "reaches_dispatch ?ios ?upper build42 ''right'' ''http://store/a.bin''"
    by (rule example_reaches_dispatch) simp
  have r3: "reaches_dispatch ?ios ?one build42 ''right'' ''http://store/a.bin''"
    by (rule example_reaches_dispatch) simp
  have f1: "first_value ?both ''artifact'' = ''true''" "first_value ?both ''plist'' = ''true''"
    by (simp_all add: first_value_def param_values_def request_URL_def)
  have f2: "first_value ?upper ''artifact'' \<noteq> ''true''" "first_value ?upper ''plist'' \<noteq> ''true''"
    by (simp_all add: first_value_def param_values_def request_URL_def)
  have f3: "first_value ?one ''artifact'' \<noteq> ''true''" "first_value ?one ''plist'' = ''true''"
    by (simp_all add: first_value_def param_values_def request_URL_def)
  have sp: "Split (Path ?both) CHR ''/'' ! 1 = ''build42''" by code_simp
  have ce: "copy_err upstream_bytes = None" "close_err upstream_bytes = None"
    by (simp_all add: upstream_bytes_def)
  from artifact_intent_first [OF r1 t, where src = upstream_bytes and err = "[]"] f1 s
  have a0: "returned_header (handler ?ios ?both) ''content-type'' = Some ''octet/stream''"
    "returned_body (handler ?ios ?both) = Some (concat (chunks upstream_bytes))"
    "returned_calls (handler ?ios ?both) =
       Some ([GetBuild_call (Split (Path ?both) CHR ''/'' ! 1), GetBuildType_call] @
              StreamArtifact_call ''http://store/a.bin'' (AuthToken ?ios) #
              (case copy_err upstream_bytes of None \<Rightarrow> []
               | Some e \<Rightarrow> [Print (''error writing download of application binary'' @ [newline])]) @
              Close_call #
              (case close_err upstream_bytes of None \<Rightarrow> []
               | Some e \<Rightarrow>
                   [Print (''error. failed to close file handle. could be leaking resources '' @ e)]))"
    by blast+
  have a: "returned_header (handler ?ios ?both) ''content-type'' = Some ''octet/stream''"
    "returned_body (handler ?ios ?both) = Some ''PKbytes''"
    "returned_calls (handler ?ios ?both) =
       Some [GetBuild_call ''build42'', GetBuildType_call,
             StreamArtifact_call ''http://store/a.bin'' ''service-credential'', Close_call]"
    using a0 unfolding sp ce by (simp_all add: example_clients_simps example_values)
  from artifact_intent_first [OF r1d td, where src = upstream_bytes and err = "''connection refused''"]
    f1 sd
  have d: "returned_status (handler ?down ?both) = Some 500"
    by blast
  have hi: "plain_hostname (OPERATOR_HOSTNAME ?ios)"
    by (simp add: example_clients_simps example_values)
  from artifact_intent_first [OF r2 t, where src = upstream_bytes and err = "[]"] f2 hi
  have b: "returned_header (handler ?ios ?upper) ''content-type'' = Some ''text/html''"
    by blast
  from artifact_intent_first [OF r3 t, where src = upstream_bytes and err = "[]"] f3
  have c: "returned_header (handler ?ios ?one) ''content-type'' = Some ''application/xml''"
    by blast
  from r1 f1 a d b c show ?thesis by blast
qed

subsection \<open>Claim C5: failed resolution and missing artifact location\<close>

text \<open>
  Claim C5, as the code has it. For every request that passes the validators: when
  \<^verbatim>\<open>GetBuild\<close> fails with an error whose message contains "not found", the handler
  answers 404 with a message that ends in the build id of the path; when it fails with
  any other error, 500; when it succeeds, the token check passes and the artifact
  location annotation is absent or empty, 500 with the message "missing annotation on
  build object". In all three cases nothing but the build directory is called.
\<close>

theorem resolution_outcomes:
  assumes "validateURLPath u = Ok True" and "parseToken u = Ok token"
  shows
   "(GetBuild cl (Split (Path u) CHR ''/'' ! 1) = (build, Some err) \<and> Contains err ''not found'' \<longrightarrow>
       returned_status (handler cl u) = Some 404 \<and>
       returned_body (handler cl u) =
         Some (''no resources found for build '' @ Split (Path u) CHR ''/'' ! 1 @ [newline]) \<and>
       returned_calls (handler cl u) = Some [GetBuild_call (Split (Path u) CHR ''/'' ! 1)]) \<and>
    (GetBuild cl (Split (Path u) CHR ''/'' ! 1) = (build, Some err) \<and> \<not> Contains err ''not found'' \<longrightarrow>
       returned_status (handler cl u) = Some 500 \<and>
       returned_calls (handler cl u) = Some [GetBuild_call (Split (Path u) CHR ''/'' ! 1)]) \<and>
    (GetBuild cl (Split (Path u) CHR ''/'' ! 1) = (build, None) \<and>
     Annotations build (GetTokenConst cl) = Some token \<and>
     (Annotations build (GetDownloadConst cl) = None \<or>
      Annotations build (GetDownloadConst cl) = Some []) \<longrightarrow>
       returned_status (handler cl u) = Some 500 \<and>
       returned_body (handler cl u) = Some (''missing annotation on build object'' @ [newline]) \<and>
       returned_calls (handler cl u) = Some [GetBuild_call (Split (Path u) CHR ''/'' ! 1)])"
proof -
  from assms(1) have m: "MatchString (Path u)" by (simp add: validateURLPath_iff)
  show ?thesis
  proof (intro conjI impI)
    assume a: "GetBuild cl (Split (Path u) CHR ''/'' ! 1) = (build, Some err) \<and>
               Contains err ''not found''"
    then have g: "GetBuild cl (Split (Path u) CHR ''/'' ! 1) = (build, Some err)" by simp
    note h = handler_resolve_error [OF m assms(2) g]
    show "returned_status (handler cl u) = Some 404"
      using a by (simp add: h returned_http_Error)
    show "returned_body (handler cl u) =
         Some (''no resources found for build '' @ Split (Path u) CHR ''/'' ! 1 @ [newline])"
      using a by (simp add: h returned_http_Error)
    show "returned_calls (handler cl u) = Some [GetBuild_call (Split (Path u) CHR ''/'' ! 1)]"
      using a by (simp add: h returned_http_Error)
  next
    assume a: "GetBuild cl (Split (Path u) CHR ''/'' ! 1) = (build, Some err) \<and>
               \<not> Contains err ''not found''"
    then have g: "GetBuild cl (Split (Path u) CHR ''/'' ! 1) = (build, Some err)" by simp
    note h = handler_resolve_error [OF m assms(2) g]
    show "returned_status (handler cl u) = Some 500"
      using a by (simp add: h returned_http_Error)
    show "returned_calls (handler cl u) = Some [GetBuild_call (Split (Path u) CHR ''/'' ! 1)]"
      using a by (simp add: h returned_http_Error)
  next
    assume a: "GetBuild cl (Split (Path u) CHR ''/'' ! 1) = (build, None) \<and>
     Annotations build (GetTokenConst cl) = Some token \<and>
     (Annotations build (GetDownloadConst cl) = None \<or>
      Annotations build (GetDownloadConst cl) = Some [])"
    then have g: "GetBuild cl (Split (Path u) CHR ''/'' ! 1) = (build, None)"
      and t: "Annotations build (GetTokenConst cl) = Some token"
      and d: "Annotations build (GetDownloadConst cl) = None \<or>
              Annotations build (GetDownloadConst cl) = Some []"
      by blast+
    note h = handler_missing_annotation [OF m assms(2) g t d]
    show "returned_status (handler cl u) = Some 500" by (simp add: h returned_http_Error)
    show "returned_body (handler cl u) = Some (''missing annotation on build object'' @ [newline])"
      by (simp add: h returned_http_Error)
    show "returned_calls (handler cl u) = Some [GetBuild_call (Split (Path u) CHR ''/'' ! 1)]"
      by (simp add: h returned_http_Error)
  qed
qed

theorem resolution_outcomes_witness:
  "validateURLPath (request_URL ''/b1/download'' [(''token'', ''right'')]) = Ok True \<and>
   parseToken (request_URL ''/b1/download'' [(''token'', ''right'')]) = Ok ''right'' \<and>
   Contains ''builds b1 not found'' ''not found'' \<and>
   returned_status (handler (example_clients build42 (Ok ''android'') (Ok upstream_bytes))
     (request_URL ''/b1/download'' [(''token'', ''right'')])) = Some 404 \<and>
   returned_body (handler (example_clients build42 (Ok ''android'') (Ok upstream_bytes))
     (request_URL ''/b1/download'' [(''token'', ''right'')])) =
     Some (''no resources found for build b1'' @ [newline]) \<and>
   \<not> Contains ''connection refused'' ''not found'' \<and>
   returned_status (handler
     ((example_clients build42 (Ok ''android'') (Ok upstream_bytes))
        \<lparr>GetBuild := \<lambda>name. (\<lparr>Name = [], Annotations = Map.empty\<rparr>, Some ''connection refused'')\<rparr>)
     (request_URL ''/b1/download'' [(''token'', ''right'')])) = Some 500 \<and>
   returned_body (handler
     (example_clients \<lparr>Name = ''b1'', Annotations = [''token'' \<mapsto> ''right'']\<rparr>
        (Ok ''android'') (Ok upstream_bytes))
     (request_URL ''/b1/download'' [(''token'', ''right'')])) =
     Some (''missing annotation on build object'' @ [newline])"
proof -
  let ?u = "request_URL ''/b1/download'' [(''token'', ''right'')]"
  let ?known = "example_clients build42 (Ok ''android'') (Ok upstream_bytes)"
  let ?down = "?known\<lparr>GetBuild := \<lambda>name.
                  (\<lparr>Name = [], Annotations = Map.empty\<rparr>, Some ''connection refused'')\<rparr>"
  let ?b1 = "\<lparr>Name = ''b1'', Annotations = [''token'' \<mapsto> ''right'']\<rparr>"
  let ?bare = "example_clients ?b1 (Ok ''android'') (Ok upstream_bytes)"
  have v: "validateURLPath ?u = Ok True" by code_simp
  have p: "parseToken ?u = Ok ''right''" by code_simp
  have sp: "Split (Path ?u) CHR ''/'' ! 1 = ''b1''" by code_simp
  have c1: "Contains ''builds b1 not found'' ''not found''" by code_simp
  have c2: "\<not> Contains ''connection refused'' ''not found''" by code_simp
  have g1: "GetBuild ?known (Split (Path ?u) CHR ''/'' ! 1) =
              (\<lparr>Name = [], Annotations = Map.empty\<rparr>, Some ''builds b1 not found'')"
    unfolding sp by (simp add: example_clients_def build42_def)
  have g2: "GetBuild ?down (Split (Path ?u) CHR ''/'' ! 1) =
              (\<lparr>Name = [], Annotations = Map.empty\<rparr>, Some ''connection refused'')"
    by simp
  have g3: "GetBuild ?bare (Split (Path ?u) CHR ''/'' ! 1) = (?b1, None)"
    unfolding sp by (simp add: example_clients_def)
  have a3: "Annotations ?b1 (GetTokenConst ?bare) = Some ''right''"
    "Annotations ?b1 (GetDownloadConst ?bare) = None"
    by (simp_all add: example_clients_def)
  from resolution_outcomes [OF v p, of ?known "\<lparr>Name = [], Annotations = Map.empty\<rparr>"
      "''builds b1 not found''"] g1 c1
  have w0: "returned_status (handler ?known ?u) = Some 404"
    "returned_body (handler ?known ?u) =
       Some (''no resources found for build '' @ Split (Path ?u) CHR ''/'' ! 1 @ [newline])"
    by blast+
  have w1: "returned_status (handler ?known ?u) = Some 404"
    "returned_body (handler ?known ?u) = Some (''no resources found for build b1'' @ [newline])"
    using w0 unfolding sp by simp_all
  from resolution_outcomes [OF v p, of ?down "\<lparr>Name = [], Annotations = Map.empty\<rparr>"
      "''connection refused''"] g2 c2
  have w2: "returned_status (handler ?down ?u) = Some 500" by blast
  from resolution_outcomes [OF v p, of ?bare ?b1 "[]"] g3 a3
  have w3: "returned_body (handler ?bare ?u) =
              Some (''missing annotation on build object'' @ [newline])"
    by blast
  from v p c1 c2 w1 w2 w3 show ?thesis by blast
qed

text \<open>
  The claim as stated fails: when the build is resolved and has no artifact location,
  but the token does not match, the answer is 403, since the token is checked first.
\<close>

theorem unauthorized_missing_location_counterexample:
  "Annotations \<lparr>Name = ''build42'', Annotations = [''token'' \<mapsto> ''right'']\<rparr> ''download'' = None \<and>
   returned_status (handler
     (example_clients \<lparr>Name = ''build42'', Annotations = [''token'' \<mapsto> ''right'']\<rparr>
        (Ok ''android'') (Ok upstream_bytes))
     (request_URL ''/build42/download'' [(''token'', ''wrong'')])) = Some 403 \<and>
   returned_body (handler
     (example_clients \<lparr>Name = ''build42'', Annotations = [''token'' \<mapsto> ''right'']\<rparr>
        (Ok ''android'') (Ok upstream_bytes))
     (request_URL ''/build42/download'' [(''token'', ''wrong'')])) =
     Some (''invalid token provided for build build42'' @ [newline])"
  by code_simp

subsection \<open>Claim C8: the message of a failed fetch\<close>

text \<open>
  Claim C8. When the fetch of the artifact fails, \<^verbatim>\<open>handleBinaryResponse\<close> answers
  500, and the body is the message constant of the code, which reads "error when
  streaming atifact" and so differs from the message "error when streaming artifact".
\<close>

theorem fetch_failure_message:
  "status (fst (handleBinaryResponse
      (example_clients build42 (Ok ''android'') (Err ''connection refused''))
      new_response ''http://store/a.bin'' ''build42.apk'')) = Some 500 \<and>
   body (fst (handleBinaryResponse
      (example_clients build42 (Ok ''android'') (Err ''connection refused''))
      new_response ''http://store/a.bin'' ''build42.apk'')) =
     ''error when streaming atifact'' @ [newline] \<and>
   body (fst (handleBinaryResponse
      (example_clients build42 (Ok ''android'') (Err ''connection refused''))
      new_response ''http://store/a.bin'' ''build42.apk'')) \<noteq>
     ''error when streaming artifact'' @ [newline]"
  by code_simp

end
